theory Spec2Isabelle
  imports Complex_Main "HOL-Library.Multiset" "HOL-Library.Char_ord" "HOL-Library.List_Lexorder"
    "HOL-Library.Product_Lexorder"
begin

text \<open>
  MealOps: the API server of a meal planner (\<^verbatim>\<open>apps/api/src/server.ts\<close> with
  \<^verbatim>\<open>nutrition.ts\<close>), embedded function by function. Pure helpers are HOL functions;
  a handler is a function from the store and the request to the answer and the store it
  leaves; an answer with an error status is the \<open>Inl\<close> of a sum. The first part holds
  the definitions, the second the lemmas about them, the last the properties claimed of
  the server, each with its statement in words.
\<close>

section \<open>Dates: the ECMAScript time value and the date-only helpers of \<^verbatim>\<open>server.ts\<close>\<close>

text \<open>
  A JavaScript \<^verbatim>\<open>Date\<close> holds a time value: the number of milliseconds since
  1970-01-01T00:00:00Z. A valid \<^verbatim>\<open>Date\<close> is modelled by that integer; the invalid
  date (time value NaN) only arises inside \<^verbatim>\<open>parseDateOnly\<close>, where it is the
  \<open>None\<close> of \<open>newDateUtcMidnight\<close>. Time values are integers below \<open>2 ^ 53\<close>, so
  the subtraction and the comparisons of \<^verbatim>\<open>isWithinWeek\<close> are exact on them.

  The calendar functions follow the abstract operations of the language standard
  (Day, DayFromYear, DaysInYear, YearFromTime, InLeapYear, MonthFromTime, DateFromTime,
  MakeDay), taken on day numbers. The standard defines YearFromTime as the largest year
  whose first day is not after the given day; \<open>YearFromDay\<close> computes it from an estimate
  that is off by at most one year, and \<open>YearFromDay_bounds\<close> with \<open>YearFromDay_unique\<close>
  below prove that it is that year.
\<close>

type_synonym Date = int

definition msPerDay :: int where
  "msPerDay = 24 * 60 * 60 * 1000"

definition Day :: "int \<Rightarrow> int" where
  "Day t = t div msPerDay"

definition DayFromYear :: "int \<Rightarrow> int" where
  "DayFromYear y =
     365 * (y - 1970) + (y - 1969) div 4 - (y - 1901) div 100 + (y - 1601) div 400"

definition DaysInYear :: "int \<Rightarrow> int" where
  "DaysInYear y =
     (if y mod 4 \<noteq> 0 then 365
      else if y mod 100 \<noteq> 0 then 366
      else if y mod 400 \<noteq> 0 then 365
      else 366)"

definition YearFromDay :: "int \<Rightarrow> int" where
  "YearFromDay n =
     (let y = 1970 + (400 * n) div 146097
      in if n < DayFromYear y then y - 1
         else if DayFromYear (y + 1) \<le> n then y + 1
         else y)"

definition InLeapYear :: "int \<Rightarrow> int" where
  "InLeapYear y = (if DaysInYear y = 366 then 1 else 0)"

definition DayWithinYear :: "int \<Rightarrow> int" where
  "DayWithinYear n = n - DayFromYear (YearFromDay n)"

definition MonthFromDay :: "int \<Rightarrow> int" where
  "MonthFromDay n =
     (let d = DayWithinYear n; l = InLeapYear (YearFromDay n)
      in if d < 31 then 0
         else if d < 59 + l then 1
         else if d < 90 + l then 2
         else if d < 120 + l then 3
         else if d < 151 + l then 4
         else if d < 181 + l then 5
         else if d < 212 + l then 6
         else if d < 243 + l then 7
         else if d < 273 + l then 8
         else if d < 304 + l then 9
         else if d < 334 + l then 10
         else 11)"

definition DateFromDay :: "int \<Rightarrow> int" where
  "DateFromDay n =
     (let d = DayWithinYear n; l = InLeapYear (YearFromDay n); m = MonthFromDay n
      in if m = 0 then d + 1
         else if m = 1 then d - 30
         else if m = 2 then d - 58 - l
         else if m = 3 then d - 89 - l
         else if m = 4 then d - 119 - l
         else if m = 5 then d - 150 - l
         else if m = 6 then d - 180 - l
         else if m = 7 then d - 211 - l
         else if m = 8 then d - 242 - l
         else if m = 9 then d - 272 - l
         else if m = 10 then d - 303 - l
         else d - 333 - l)"

text \<open>The day within the year on which month \<open>m\<close> (0 to 11) starts; \<open>l\<close> is 1 in a leap year.\<close>

definition monthStart :: "int \<Rightarrow> int \<Rightarrow> int" where
  "monthStart l m =
     (if m = 0 then 0
      else if m = 1 then 31
      else if m = 2 then 59 + l
      else if m = 3 then 90 + l
      else if m = 4 then 120 + l
      else if m = 5 then 151 + l
      else if m = 6 then 181 + l
      else if m = 7 then 212 + l
      else if m = 8 then 243 + l
      else if m = 9 then 273 + l
      else if m = 10 then 304 + l
      else 334 + l)"

definition MakeDay :: "int \<Rightarrow> int \<Rightarrow> int \<Rightarrow> int" where
  "MakeDay year month date =
     (let ym = year + month div 12; mn = month mod 12
      in DayFromYear ym + monthStart (InLeapYear ym) mn + date - 1)"

text \<open>The length of month \<open>m\<close> (1 to 12) of year \<open>y\<close> in the proleptic Gregorian calendar.\<close>

definition daysInMonth :: "int \<Rightarrow> int \<Rightarrow> int" where
  "daysInMonth y m =
     (if m = 2 then 28 + InLeapYear y
      else if m = 4 \<or> m = 6 \<or> m = 9 \<or> m = 11 then 30
      else 31)"

subsection \<open>Decimal digits\<close>

definition isDigit :: "char \<Rightarrow> bool" where
  "isDigit c = (48 \<le> (of_char c :: nat) \<and> (of_char c :: nat) \<le> 57)"

definition digitVal :: "char \<Rightarrow> int" where
  "digitVal c = int (of_char c) - 48"

definition digitChar :: "int \<Rightarrow> char" where
  "digitChar v = char_of (48 + nat v)"

definition parseDigits :: "string \<Rightarrow> int" where
  "parseDigits ds = foldl (\<lambda>a c. 10 * a + digitVal c) 0 ds"

text \<open>
  The last \<open>k\<close> decimal digits of \<open>n\<close>, zero-padded: what \<^verbatim>\<open>toISOString\<close> prints for
  a field of width \<open>k\<close> (every field it prints fits its width).
\<close>

fun padDigits :: "nat \<Rightarrow> int \<Rightarrow> string" where
  "padDigits 0 n = []"
| "padDigits (Suc k) n = padDigits k (n div 10) @ [digitChar (n mod 10)]"

subsection \<open>\<^verbatim>\<open>DATE_ONLY_REGEX\<close>, \<^verbatim>\<open>parseDateOnly\<close>, \<^verbatim>\<open>formatDateOnly\<close>, \<^verbatim>\<open>isWithinWeek\<close>\<close>

text \<open>
  \<^verbatim>\<open>/^\d{4}-\d{2}-\d{2}$/.test(value)\<close>: exactly ten characters, ASCII digits around
  two hyphens (without the \<^verbatim>\<open>m\<close> flag \<^verbatim>\<open>$\<close> matches at the end of the input only).
\<close>

fun DATE_ONLY_REGEX_test :: "string \<Rightarrow> bool" where
  "DATE_ONLY_REGEX_test [y1, y2, y3, y4, h1, m1, m2, h2, d1, d2] =
     (isDigit y1 \<and> isDigit y2 \<and> isDigit y3 \<and> isDigit y4 \<and> h1 = CHR ''-'' \<and>
      isDigit m1 \<and> isDigit m2 \<and> h2 = CHR ''-'' \<and> isDigit d1 \<and> isDigit d2)"
| "DATE_ONLY_REGEX_test _ = False"

text \<open>
  \<^verbatim>\<open>Date.prototype.toISOString\<close>: a four-digit year from 0 to 9999, a sign and six
  digits outside that range.
\<close>

definition isoYearString :: "int \<Rightarrow> string" where
  "isoYearString y =
     (if 0 \<le> y \<and> y \<le> 9999 then padDigits 4 y
      else (if y < 0 then ''-'' else ''+'') @ padDigits 6 \<bar>y\<bar>)"

definition toISOString :: "Date \<Rightarrow> string" where
  "toISOString t =
     (let n = Day t; ms = t mod msPerDay
      in isoYearString (YearFromDay n) @ ''-'' @ padDigits 2 (MonthFromDay n + 1) @ ''-'' @
         padDigits 2 (DateFromDay n) @ ''T'' @ padDigits 2 (ms div 3600000) @ '':'' @
         padDigits 2 (ms div 60000 mod 60) @ '':'' @ padDigits 2 (ms div 1000 mod 60) @ ''.'' @
         padDigits 3 (ms mod 1000) @ ''Z'')"

definition formatDateOnly :: "Date \<Rightarrow> string" where
  "formatDateOnly date = take 10 (toISOString date)"

text \<open>
  \<^verbatim>\<open>new Date(`${value}T00:00:00.000Z`)\<close> for a \<^verbatim>\<open>value\<close> that has passed
  \<^verbatim>\<open>DATE_ONLY_REGEX\<close>, as Node's engine parses the ISO format: a month outside 1 to 12
  or a day outside 1 to 31 gives the invalid date (\<open>None\<close>); a day from 29 to 31 that the
  month does not have is accepted and carried into the next month by MakeDay.
\<close>

definition newDateUtcMidnight :: "string \<Rightarrow> Date option" where
  "newDateUtcMidnight v =
     (let y = parseDigits (take 4 v);
          m = parseDigits (take 2 (drop 5 v));
          d = parseDigits (take 2 (drop 8 v))
      in if 1 \<le> m \<and> m \<le> 12 \<and> 1 \<le> d \<and> d \<le> 31
         then Some (MakeDay y (m - 1) d * msPerDay)
         else None)"

definition parseDateOnly :: "string \<Rightarrow> Date option" where
  "parseDateOnly v =
     (if \<not> DATE_ONLY_REGEX_test v then None
      else case newDateUtcMidnight v of
             None \<Rightarrow> None
           | Some date \<Rightarrow> if formatDateOnly date = v then Some date else None)"

definition isWithinWeek :: "Date \<Rightarrow> Date \<Rightarrow> bool" where
  "isWithinWeek date weekStart =
     (let dayMs = 24 * 60 * 60 * 1000;
          diffMs = date - weekStart
      in diffMs \<ge> 0 \<and> diffMs \<le> dayMs * 6)"

text \<open>
  The three numeric fields of a string of the shape \<^verbatim>\<open>YYYY-MM-DD\<close>, the string of
  three fields, and the calendar dates among the strings: the pattern matches and the
  fields name a day that the month has.
\<close>

definition dateFields :: "string \<Rightarrow> int \<times> int \<times> int" where
  "dateFields v =
     (parseDigits (take 4 v), parseDigits (take 2 (drop 5 v)), parseDigits (take 2 (drop 8 v)))"

definition dateString :: "int \<Rightarrow> int \<Rightarrow> int \<Rightarrow> string" where
  "dateString y m d = padDigits 4 y @ ''-'' @ padDigits 2 m @ ''-'' @ padDigits 2 d"

definition isCalendarDate :: "string \<Rightarrow> bool" where
  "isCalendarDate s =
     (DATE_ONLY_REGEX_test s \<and>
      (case dateFields s of
         (y, m, d) \<Rightarrow> 1 \<le> m \<and> m \<le> 12 \<and> 1 \<le> d \<and> d \<le> daysInMonth y m))"

section \<open>The nutrition aggregator (\<^verbatim>\<open>nutrition.ts\<close> and the recipe handlers)\<close>

text \<open>
  JavaScript numbers are modelled by the reals: the aggregator is read as exact
  arithmetic, and the rounding error of binary floating point is outside this model.
\<close>

record Nutrition =
  kcal :: real
  protein :: real
  carbs :: real
  fat :: real

definition add :: "Nutrition \<Rightarrow> Nutrition \<Rightarrow> Nutrition" where
  "add a b =
     \<lparr>kcal = kcal a + kcal b,
      protein = protein a + protein b,
      carbs = carbs a + carbs b,
      fat = fat a + fat b\<rparr>"

text \<open>\<^verbatim>\<open>Math.round\<close>: the integer nearest to \<open>x\<close>, a tie going up (towards \<open>+\<infinity>\<close>).\<close>

definition Math_round :: "real \<Rightarrow> real" where
  "Math_round x = of_int \<lfloor>x + 1 / 2\<rfloor>"

definition round1 :: "real \<Rightarrow> real" where
  "round1 n = Math_round (n * 10) / 10"









text \<open>\<^verbatim>\<open>[...new Set(xs)]\<close>: the distinct elements, each at its first occurrence.\<close>

fun uniqueInOrder :: "'a list \<Rightarrow> 'a list \<Rightarrow> 'a list" where
  "uniqueInOrder seen [] = seen"
| "uniqueInOrder seen (x # xs) =
     (if x \<in> set seen then uniqueInOrder seen xs else uniqueInOrder (seen @ [x]) xs)"


datatype httpError = HttpError nat string






text \<open>
  Rounding to one decimal place, half away from zero, as the specification words it;
  to be compared with \<open>round1\<close>.
\<close>

definition roundHalfAwayFromZero1 :: "real \<Rightarrow> real" where
  "roundHalfAwayFromZero1 x = sgn x * of_int \<lfloor>\<bar>x\<bar> * 10 + 1 / 2\<rfloor> / 10"




section \<open>The store and the handlers of \<^verbatim>\<open>server.ts\<close>\<close>

text \<open>
  The tables the handlers read and write, each a list of rows in the order of
  insertion, with the columns the handlers use. The database schema is not among the
  sources; the model takes from the handlers that ids are primary keys (\<^verbatim>\<open>findUnique\<close>
  by id) and that a planned meal refers to a recipe (\<^verbatim>\<open>meal.recipe\<close> is read without a
  null check). A handler takes the store and returns its answer with the store it leaves
  behind; a request is served alone, from its first query to its last.
\<close>

datatype Role = USER | ADMIN

record UserRow =
  user_id :: string
  user_email :: string
  user_role :: Role

record RecipeRow =
  recipe_id :: string
  recipe_userId :: string
  recipe_name :: string

record MealPlanRow =
  plan_id :: string
  plan_userId :: string
  plan_weekStart :: Date

record PlannedMealRow =
  meal_planId :: string
  meal_date :: Date
  meal_slot :: string
  meal_recipeId :: string

record Store =
  users :: "UserRow list"
  recipes :: "RecipeRow list"
  mealPlans :: "MealPlanRow list"
  plannedMeals :: "PlannedMealRow list"

subsection \<open>Roles\<close>

text \<open>
  The two \<^verbatim>\<open>preHandler\<close>s of the admin routes. \<open>user\<close> is the subject of the verified
  token, \<open>None\<close> when \<^verbatim>\<open>jwtVerify\<close> fails (then \<^verbatim>\<open>authenticate\<close> answers 401 and the
  chain stops).
\<close>

definition requireAdmin :: "Store \<Rightarrow> string option \<Rightarrow> httpError option" where
  "requireAdmin db user =
     (case user of
        None \<Rightarrow> Some (HttpError 401 ''Unauthorized'')
      | Some userId \<Rightarrow>
          if userId = [] then Some (HttpError 401 ''Unauthorized'')
          else (case find (\<lambda>u. user_id u = userId) (users db) of
                  None \<Rightarrow> Some (HttpError 403 ''Forbidden'')
                | Some u \<Rightarrow>
                    if user_role u \<noteq> ADMIN then Some (HttpError 403 ''Forbidden'') else None))"

definition adminCount :: "Store \<Rightarrow> nat" where
  "adminCount db = length (filter (\<lambda>u. user_role u = ADMIN) (users db))"

text \<open>\<^verbatim>\<open>prisma.user.update({ where: { id }, data: { role } })\<close>.\<close>

definition updateUserRole :: "Store \<Rightarrow> string \<Rightarrow> Role \<Rightarrow> Store" where
  "updateUserRole db targetId r =
     db\<lparr>users := map (\<lambda>u. if user_id u = targetId then u\<lparr>user_role := r\<rparr> else u) (users db)\<rparr>"

text \<open>
  \<^verbatim>\<open>PATCH /admin/users/:id/role\<close>. The body's role has passed \<^verbatim>\<open>z.enum\<close> and is a
  \<open>Role\<close>; an empty id fails \<^verbatim>\<open>Params.parse\<close>, whose exception the framework answers
  with 500.
\<close>

definition patchUserRole :: "Store \<Rightarrow> string option \<Rightarrow> string \<Rightarrow> Role \<Rightarrow> (httpError + UserRow) \<times> Store" where
  "patchUserRole db user targetId bodyRole =
     (case requireAdmin db user of
        Some e \<Rightarrow> (Inl e, db)
      | None \<Rightarrow>
          if targetId = [] then (Inl (HttpError 500 ''ZodError''), db)
          else (case find (\<lambda>u. user_id u = targetId) (users db) of
                  None \<Rightarrow> (Inl (HttpError 404 ''User not found''), db)
                | Some target \<Rightarrow>
                    if user_role target = ADMIN \<and> bodyRole = USER \<and> adminCount db \<le> 1
                    then (Inl (HttpError 409 ''Cannot remove admin role from the last admin''), db)
                    else (Inr (target\<lparr>user_role := bodyRole\<rparr>), updateUserRole db targetId bodyRole)))"

text \<open>
  \<^verbatim>\<open>POST /admin/bootstrap-self\<close>: the first admin. Updating a user that does not
  exist makes the client throw, which the framework answers with 500.
\<close>

definition bootstrapSelf :: "Store \<Rightarrow> string option \<Rightarrow> (httpError + UserRow) \<times> Store" where
  "bootstrapSelf db user =
     (case user of
        None \<Rightarrow> (Inl (HttpError 401 ''Unauthorized''), db)
      | Some userId \<Rightarrow>
          if adminCount db > 0 then (Inl (HttpError 409 ''An admin already exists''), db)
          else (case find (\<lambda>u. user_id u = userId) (users db) of
                  None \<Rightarrow> (Inl (HttpError 500 ''PrismaClientKnownRequestError P2025''), db)
                | Some u \<Rightarrow> (Inr (u\<lparr>user_role := ADMIN\<rparr>), updateUserRole db userId ADMIN)))"

text \<open>The requests that change a role, and a run of them from a store.\<close>

datatype RoleRequest =
  PatchRole "string option" string Role
| BootstrapSelf "string option"

fun roleStep :: "Store \<Rightarrow> RoleRequest \<Rightarrow> Store" where
  "roleStep db (PatchRole user targetId r) = snd (patchUserRole db user targetId r)"
| "roleStep db (BootstrapSelf user) = snd (bootstrapSelf db user)"

definition roleRun :: "Store \<Rightarrow> RoleRequest list \<Rightarrow> Store" where
  "roleRun db reqs = foldl roleStep db reqs"

subsection \<open>Meal plans\<close>

definition slotSortOrder :: "string list" where
  "slotSortOrder = [''breakfast'', ''lunch'', ''afternoon_snack'', ''dinner'']"

text \<open>\<^verbatim>\<open>Array.prototype.indexOf\<close>: the first index of the element, or \<open>-1\<close>.\<close>

fun indexOf :: "'a list \<Rightarrow> 'a \<Rightarrow> int" where
  "indexOf [] x = - 1"
| "indexOf (y # ys) x =
     (if y = x then 0 else (let i = indexOf ys x in if i = - 1 then - 1 else i + 1))"

definition slotRank :: "string \<Rightarrow> int" where
  "slotRank slot =
     (let idx = indexOf slotSortOrder slot
      in if idx = - 1 then int (length slotSortOrder) else idx)"

text \<open>
  \<^verbatim>\<open>a.localeCompare(b)\<close> as negative, zero or positive. The handlers compare the
  strings \<^verbatim>\<open>formatDateOnly\<close> returns, of digits and hyphens at the same places, which
  every collation orders as their character codes do; the model compares by character
  code.
\<close>

fun localeCompare :: "string \<Rightarrow> string \<Rightarrow> int" where
  "localeCompare [] [] = 0"
| "localeCompare [] (b # bs) = - 1"
| "localeCompare (a # as) [] = 1"
| "localeCompare (a # as) (b # bs) =
     (if (of_char a :: nat) < of_char b then - 1
      else if (of_char b :: nat) < of_char a then 1
      else localeCompare as bs)"

record MealView =
  mv_date :: string
  mv_slot :: string
  mv_recipeId :: string
  mv_recipeName :: string

text \<open>The comparator both handlers pass to \<^verbatim>\<open>sort\<close>.\<close>

definition compareMeals :: "MealView \<Rightarrow> MealView \<Rightarrow> int" where
  "compareMeals a b =
     (let dateCompare = localeCompare (mv_date a) (mv_date b)
      in if dateCompare \<noteq> 0 then dateCompare
         else slotRank (mv_slot a) - slotRank (mv_slot b))"

text \<open>
  \<^verbatim>\<open>Array.prototype.sort\<close> with a comparator is a stable sort: elements the comparator
  calls equal keep their order. Insertion from the right is such a sort.
\<close>

fun insertSorted :: "('a \<Rightarrow> 'a \<Rightarrow> int) \<Rightarrow> 'a \<Rightarrow> 'a list \<Rightarrow> 'a list" where
  "insertSorted cmp x [] = [x]"
| "insertSorted cmp x (y # ys) =
     (if cmp x y \<le> 0 then x # y # ys else y # insertSorted cmp x ys)"

fun sortBy :: "('a \<Rightarrow> 'a \<Rightarrow> int) \<Rightarrow> 'a list \<Rightarrow> 'a list" where
  "sortBy cmp [] = []"
| "sortBy cmp (x # xs) = insertSorted cmp x (sortBy cmp xs)"

text \<open>
  \<^verbatim>\<open>include: { meals: { include: { recipe: ... } } }\<close> followed by the handlers'
  \<^verbatim>\<open>map\<close>: the meals of a plan, each with its recipe. Reading \<^verbatim>\<open>meal.recipe.id\<close> of a
  meal without recipe would throw; that is \<open>None\<close>.
\<close>

definition mealView :: "Store \<Rightarrow> PlannedMealRow \<Rightarrow> MealView option" where
  "mealView db meal =
     (case find (\<lambda>r. recipe_id r = meal_recipeId meal) (recipes db) of
        None \<Rightarrow> None
      | Some r \<Rightarrow>
          Some \<lparr>mv_date = formatDateOnly (meal_date meal),
                mv_slot = meal_slot meal,
                mv_recipeId = recipe_id r,
                mv_recipeName = recipe_name r\<rparr>)"

fun mapOption :: "('a \<Rightarrow> 'b option) \<Rightarrow> 'a list \<Rightarrow> 'b list option" where
  "mapOption f [] = Some []"
| "mapOption f (x # xs) =
     (case f x of
        None \<Rightarrow> None
      | Some y \<Rightarrow> (case mapOption f xs of None \<Rightarrow> None | Some ys \<Rightarrow> Some (y # ys)))"

definition planMeals :: "Store \<Rightarrow> string \<Rightarrow> PlannedMealRow list" where
  "planMeals db planId = filter (\<lambda>m. meal_planId m = planId) (plannedMeals db)"

definition sortedMealViews :: "Store \<Rightarrow> PlannedMealRow list \<Rightarrow> MealView list option" where
  "sortedMealViews db meals =
     (case mapOption (mealView db) meals of
        None \<Rightarrow> None
      | Some views \<Rightarrow> Some (sortBy compareMeals views))"

record PlanResponse =
  resp_id :: "string option"
  resp_weekStart :: string
  resp_meals :: "MealView list"

text \<open>\<^verbatim>\<open>GET /meal-plans\<close>.\<close>

definition getMealPlans :: "Store \<Rightarrow> string option \<Rightarrow> string \<Rightarrow> httpError + PlanResponse" where
  "getMealPlans db user queryWeekStart =
     (case user of
        None \<Rightarrow> Inl (HttpError 401 ''Unauthorized'')
      | Some userId \<Rightarrow>
          (case parseDateOnly queryWeekStart of
             None \<Rightarrow> Inl (HttpError 400 ''weekStart must be YYYY-MM-DD'')
           | Some weekStart \<Rightarrow>
               (let plan = find (\<lambda>p. plan_userId p = userId \<and> plan_weekStart p = weekStart)
                             (mealPlans db);
                    rows = (case plan of None \<Rightarrow> [] | Some p \<Rightarrow> planMeals db (plan_id p))
                in case sortedMealViews db rows of
                     None \<Rightarrow> Inl (HttpError 500 ''TypeError'')
                   | Some meals \<Rightarrow>
                       Inr \<lparr>resp_id = map_option plan_id plan,
                            resp_weekStart = queryWeekStart,
                            resp_meals = meals\<rparr>)))"

record MealInput =
  in_date :: string
  in_slot :: string
  in_recipeId :: string

record PutBody =
  body_weekStart :: string
  body_meals :: "MealInput list"

record ParsedMeal =
  pm_date :: Date
  pm_slot :: string
  pm_recipeId :: string

text \<open>
  What \<^verbatim>\<open>Body.parse\<close> still checks of a body of the right shape: each slot is one of
  the four of \<^verbatim>\<open>mealSlotSchema\<close> and no recipe id is empty.
\<close>

definition bodyValid :: "PutBody \<Rightarrow> bool" where
  "bodyValid body =
     list_all (\<lambda>m. in_slot m \<in> set slotSortOrder \<and> in_recipeId m \<noteq> []) (body_meals body)"

text \<open>The first loop of \<^verbatim>\<open>PUT /meal-plans\<close>: every date parses and lies in the week.\<close>

fun parseMeals :: "Date \<Rightarrow> MealInput list \<Rightarrow> httpError + ParsedMeal list" where
  "parseMeals weekStart [] = Inr []"
| "parseMeals weekStart (meal # rest) =
     (case parseDateOnly (in_date meal) of
        None \<Rightarrow> Inl (HttpError 400 (''Meal date must be YYYY-MM-DD: '' @ in_date meal))
      | Some date \<Rightarrow>
          if \<not> isWithinWeek date weekStart
          then Inl (HttpError 400 (''Meal date is outside selected week: '' @ in_date meal))
          else (case parseMeals weekStart rest of
                  Inl e \<Rightarrow> Inl e
                | Inr ms \<Rightarrow>
                    Inr (\<lparr>pm_date = date, pm_slot = in_slot meal,
                          pm_recipeId = in_recipeId meal\<rparr> # ms)))"

definition slotKey :: "ParsedMeal \<Rightarrow> string" where
  "slotKey meal = formatDateOnly (pm_date meal) @ '':'' @ pm_slot meal"

text \<open>The second loop: the set \<^verbatim>\<open>seenSlots\<close> and the first key that is already in it.\<close>

fun duplicateSlot :: "string set \<Rightarrow> ParsedMeal list \<Rightarrow> httpError option" where
  "duplicateSlot seenSlots [] = None"
| "duplicateSlot seenSlots (meal # rest) =
     (if slotKey meal \<in> seenSlots
      then Some (HttpError 400 (''Duplicate slot for date '' @ formatDateOnly (pm_date meal)))
      else duplicateSlot (insert (slotKey meal) seenSlots) rest)"

text \<open>
  The recipe check: the distinct recipe ids, one \<^verbatim>\<open>findMany\<close> restricted to the user
  when there is an id at all, and the comparison of the two lengths. The first component
  counts the lookups made.
\<close>

definition findRecipes :: "Store \<Rightarrow> string \<Rightarrow> string list \<Rightarrow> RecipeRow list" where
  "findRecipes db userId ids =
     filter (\<lambda>r. recipe_userId r = userId \<and> recipe_id r \<in> set ids) (recipes db)"

definition checkRecipes :: "Store \<Rightarrow> string \<Rightarrow> ParsedMeal list \<Rightarrow> nat \<times> httpError option" where
  "checkRecipes db userId ms =
     (let recipeIds = uniqueInOrder [] (map pm_recipeId ms)
      in if length recipeIds > 0
         then (let found = findRecipes db userId recipeIds
               in (1, if length found \<noteq> length recipeIds
                      then Some (HttpError 400 ''One or more recipes were not found for this user'')
                      else None))
         else (0, None))"

text \<open>
  The transaction. \<open>newId\<close> is the id the store would give a new plan row; a row with an
  id already taken, or a meal whose recipe does not exist, is refused by the store, the
  exception leaves the transaction and nothing of it is kept. The result is the plan row
  read back, its meals, and the store after the commit.
\<close>

definition savePlan ::
    "Store \<Rightarrow> string \<Rightarrow> string \<Rightarrow> Date \<Rightarrow> ParsedMeal list \<Rightarrow> httpError + (MealPlanRow \<times> PlannedMealRow list \<times> Store)" where
  "savePlan db newId userId weekStart ms =
     (let existing = find (\<lambda>p. plan_userId p = userId \<and> plan_weekStart p = weekStart) (mealPlans db)
      in case (case existing of
                 Some p \<Rightarrow> Inr (plan_id p, db)
               | None \<Rightarrow>
                   if newId \<in> set (map plan_id (mealPlans db))
                   then Inl (HttpError 500 ''PrismaClientKnownRequestError P2002'')
                   else Inr (newId,
                          db\<lparr>mealPlans := mealPlans db @
                               [\<lparr>plan_id = newId, plan_userId = userId, plan_weekStart = weekStart\<rparr>]\<rparr>)) of
           Inl e \<Rightarrow> Inl e
         | Inr (planId, db1) \<Rightarrow>
             (let db2 = db1\<lparr>plannedMeals := filter (\<lambda>m. meal_planId m \<noteq> planId) (plannedMeals db1)\<rparr>
              in case (if length ms > 0
                       then (if list_all (\<lambda>m. pm_recipeId m \<in> set (map recipe_id (recipes db2))) ms
                             then Inr (db2\<lparr>plannedMeals := plannedMeals db2 @
                                         map (\<lambda>m. \<lparr>meal_planId = planId, meal_date = pm_date m,
                                                   meal_slot = pm_slot m, meal_recipeId = pm_recipeId m\<rparr>) ms\<rparr>)
                             else Inl (HttpError 500 ''PrismaClientKnownRequestError P2003''))
                       else Inr db2) of
                   Inl e \<Rightarrow> Inl e
                 | Inr db3 \<Rightarrow>
                     (case find (\<lambda>p. plan_id p = planId) (mealPlans db3) of
                        None \<Rightarrow> Inl (HttpError 500 ''PrismaClientKnownRequestError P2025'')
                      | Some p \<Rightarrow> Inr (p, planMeals db3 planId, db3))))"

text \<open>\<^verbatim>\<open>PUT /meal-plans\<close>.\<close>

definition putMealPlans ::
    "Store \<Rightarrow> string \<Rightarrow> string option \<Rightarrow> PutBody \<Rightarrow> (httpError + PlanResponse) \<times> Store" where
  "putMealPlans db newId user body =
     (case user of
        None \<Rightarrow> (Inl (HttpError 401 ''Unauthorized''), db)
      | Some userId \<Rightarrow>
          if \<not> bodyValid body then (Inl (HttpError 500 ''ZodError''), db)
          else (case parseDateOnly (body_weekStart body) of
             None \<Rightarrow> (Inl (HttpError 400 ''weekStart must be YYYY-MM-DD''), db)
           | Some ws \<Rightarrow>
               (case parseMeals ws (body_meals body) of
                  Inl e \<Rightarrow> (Inl e, db)
                | Inr ms \<Rightarrow>
                    (case duplicateSlot {} ms of
                       Some e \<Rightarrow> (Inl e, db)
                     | None \<Rightarrow>
                         (case snd (checkRecipes db userId ms) of
                            Some e \<Rightarrow> (Inl e, db)
                          | None \<Rightarrow>
                              (case savePlan db newId userId ws ms of
                                 Inl e \<Rightarrow> (Inl e, db)
                               | Inr (savedPlan, savedRows, db') \<Rightarrow>
                                   (case sortedMealViews db' savedRows of
                                      None \<Rightarrow> (Inl (HttpError 500 ''TypeError''), db')
                                    | Some savedMeals \<Rightarrow>
                                        (Inr \<lparr>resp_id = Some (plan_id savedPlan),
                                              resp_weekStart = formatDateOnly (plan_weekStart savedPlan),
                                              resp_meals = savedMeals\<rparr>, db'))))))))"

text \<open>A run of \<^verbatim>\<open>PUT /meal-plans\<close> requests from a store.\<close>

fun putRun :: "Store \<Rightarrow> (string \<times> string option \<times> PutBody) list \<Rightarrow> Store" where
  "putRun db [] = db"
| "putRun db ((newId, user, body) # reqs) = putRun (snd (putMealPlans db newId user body)) reqs"

subsection \<open>Notions the properties are stated with\<close>

text \<open>A submitted meal and what the first loop makes of it.\<close>

definition parsedOf :: "Date \<Rightarrow> MealInput \<Rightarrow> ParsedMeal \<Rightarrow> bool" where
  "parsedOf ws i p \<longleftrightarrow>
     parseDateOnly (in_date i) = Some (pm_date p) \<and> isWithinWeek (pm_date p) ws \<and>
     pm_slot p = in_slot i \<and> pm_recipeId p = in_recipeId i"

text \<open>Two submitted meals for the same date and slot.\<close>

definition sameSlot :: "MealInput \<Rightarrow> MealInput \<Rightarrow> bool" where
  "sameSlot a b \<longleftrightarrow> in_date a = in_date b \<and> in_slot a = in_slot b"

text \<open>The recipe of this id exists and is the user's.\<close>

definition ownsRecipe :: "Store \<Rightarrow> string \<Rightarrow> string \<Rightarrow> bool" where
  "ownsRecipe db userId rid \<longleftrightarrow>
     (\<exists>r \<in> set (recipes db). recipe_id r = rid \<and> recipe_userId r = userId)"

text \<open>The row the transaction stores for a meal.\<close>

definition mealRow :: "string \<Rightarrow> ParsedMeal \<Rightarrow> PlannedMealRow" where
  "mealRow planId m =
     \<lparr>meal_planId = planId, meal_date = pm_date m, meal_slot = pm_slot m,
      meal_recipeId = pm_recipeId m\<rparr>"

text \<open>The plan row that both handlers look up for a user and a week.\<close>

definition planOf :: "Store \<Rightarrow> string \<Rightarrow> Date \<Rightarrow> MealPlanRow option" where
  "planOf db userId ws =
     find (\<lambda>p. plan_userId p = userId \<and> plan_weekStart p = ws) (mealPlans db)"

text \<open>What identifies a meal in a body, in a row and in an answer: date, slot, recipe.\<close>

definition inputTriple :: "MealInput \<Rightarrow> string \<times> string \<times> string" where
  "inputTriple i = (in_date i, in_slot i, in_recipeId i)"

definition rowTriple :: "PlannedMealRow \<Rightarrow> string \<times> string \<times> string" where
  "rowTriple m = (formatDateOnly (meal_date m), meal_slot m, meal_recipeId m)"

definition viewTriple :: "MealView \<Rightarrow> string \<times> string \<times> string" where
  "viewTriple v = (mv_date v, mv_slot v, mv_recipeId v)"


text \<open>The key the meals are to be sorted by: the date string, then the rank of the slot.\<close>

definition mealKey :: "MealView \<Rightarrow> string \<times> int" where
  "mealKey m = (mv_date m, slotRank (mv_slot m))"

subsection \<open>Example stores\<close>

text \<open>Two admins and a user; the same with one admin.\<close>

definition twoAdmins :: Store where
  "twoAdmins =
     \<lparr>users = [\<lparr>user_id = ''u1'', user_email = ''ana@example.org'', user_role = ADMIN\<rparr>,
               \<lparr>user_id = ''u2'', user_email = ''rui@example.org'', user_role = ADMIN\<rparr>,
               \<lparr>user_id = ''u3'', user_email = ''eva@example.org'', user_role = USER\<rparr>],
      recipes = [], mealPlans = [], plannedMeals = []\<rparr>"

definition oneAdmin :: Store where
  "oneAdmin =
     \<lparr>users = [\<lparr>user_id = ''u1'', user_email = ''ana@example.org'', user_role = ADMIN\<rparr>,
               \<lparr>user_id = ''u2'', user_email = ''rui@example.org'', user_role = USER\<rparr>,
               \<lparr>user_id = ''u3'', user_email = ''eva@example.org'', user_role = USER\<rparr>],
      recipes = [], mealPlans = [], plannedMeals = []\<rparr>"

text \<open>
  A store with two users' recipes and one saved week of the first user, and a body
  for that week.
\<close>

definition planStore :: Store where
  "planStore =
     \<lparr>users = [\<lparr>user_id = ''u1'', user_email = ''ana@example.org'', user_role = USER\<rparr>,
               \<lparr>user_id = ''u2'', user_email = ''rui@example.org'', user_role = USER\<rparr>],
      recipes = [\<lparr>recipe_id = ''r1'', recipe_userId = ''u1'', recipe_name = ''Porridge''\<rparr>,
                 \<lparr>recipe_id = ''r2'', recipe_userId = ''u1'', recipe_name = ''Soup''\<rparr>,
                 \<lparr>recipe_id = ''r3'', recipe_userId = ''u2'', recipe_name = ''Stew''\<rparr>],
      mealPlans = [\<lparr>plan_id = ''p1'', plan_userId = ''u1'', plan_weekStart = 1704067200000\<rparr>],
      plannedMeals = [\<lparr>meal_planId = ''p1'', meal_date = 1704067200000, meal_slot = ''dinner'',
                       meal_recipeId = ''r2''\<rparr>]\<rparr>"

definition weekBody :: PutBody where
  "weekBody =
     \<lparr>body_weekStart = ''2024-01-01'',
      body_meals = [\<lparr>in_date = ''2024-01-03'', in_slot = ''lunch'', in_recipeId = ''r2''\<rparr>,
                    \<lparr>in_date = ''2024-01-01'', in_slot = ''dinner'', in_recipeId = ''r1''\<rparr>,
                    \<lparr>in_date = ''2024-01-01'', in_slot = ''breakfast'', in_recipeId = ''r1''\<rparr>]\<rparr>"

text \<open>A body that repeats two slots, and the same meals under a later week.\<close>

definition repeatedBody :: PutBody where
  "repeatedBody =
     \<lparr>body_weekStart = ''2024-01-01'',
      body_meals = [\<lparr>in_date = ''2024-01-02'', in_slot = ''lunch'', in_recipeId = ''r1''\<rparr>,
                    \<lparr>in_date = ''2024-01-01'', in_slot = ''breakfast'', in_recipeId = ''r1''\<rparr>,
                    \<lparr>in_date = ''2024-01-02'', in_slot = ''lunch'', in_recipeId = ''r2''\<rparr>,
                    \<lparr>in_date = ''2024-01-01'', in_slot = ''breakfast'', in_recipeId = ''r2''\<rparr>]\<rparr>"

definition lateWeekBody :: PutBody where
  "lateWeekBody =
     \<lparr>body_weekStart = ''2024-01-08'',
      body_meals = [\<lparr>in_date = ''2024-01-01'', in_slot = ''breakfast'', in_recipeId = ''r1''\<rparr>,
                    \<lparr>in_date = ''2024-01-01'', in_slot = ''breakfast'', in_recipeId = ''r2''\<rparr>]\<rparr>"

text \<open>
  What the first loop makes of \<open>weekBody\<close>, the store and the answer after saving it
  for the first user, and a body that clears another week.
\<close>

definition weekMeals :: "ParsedMeal list" where
  "weekMeals =
     [\<lparr>pm_date = 1704240000000, pm_slot = ''lunch'', pm_recipeId = ''r2''\<rparr>,
      \<lparr>pm_date = 1704067200000, pm_slot = ''dinner'', pm_recipeId = ''r1''\<rparr>,
      \<lparr>pm_date = 1704067200000, pm_slot = ''breakfast'', pm_recipeId = ''r1''\<rparr>]"

definition savedStore :: Store where
  "savedStore =
     planStore\<lparr>plannedMeals :=
       [\<lparr>meal_planId = ''p1'', meal_date = 1704240000000, meal_slot = ''lunch'',
         meal_recipeId = ''r2''\<rparr>,
        \<lparr>meal_planId = ''p1'', meal_date = 1704067200000, meal_slot = ''dinner'',
         meal_recipeId = ''r1''\<rparr>,
        \<lparr>meal_planId = ''p1'', meal_date = 1704067200000, meal_slot = ''breakfast'',
         meal_recipeId = ''r1''\<rparr>]\<rparr>"

definition savedResponse :: PlanResponse where
  "savedResponse =
     \<lparr>resp_id = Some ''p1'', resp_weekStart = ''2024-01-01'',
      resp_meals =
        [\<lparr>mv_date = ''2024-01-01'', mv_slot = ''breakfast'', mv_recipeId = ''r1'',
          mv_recipeName = ''Porridge''\<rparr>,
         \<lparr>mv_date = ''2024-01-01'', mv_slot = ''dinner'', mv_recipeId = ''r1'',
          mv_recipeName = ''Porridge''\<rparr>,
         \<lparr>mv_date = ''2024-01-03'', mv_slot = ''lunch'', mv_recipeId = ''r2'',
          mv_recipeName = ''Soup''\<rparr>]\<rparr>"

definition clearBody :: PutBody where
  "clearBody = \<lparr>body_weekStart = ''2024-01-08'', body_meals = []\<rparr>"

definition clearedStore :: Store where
  "clearedStore =
     planStore\<lparr>mealPlans := mealPlans planStore @
       [\<lparr>plan_id = ''p2'', plan_userId = ''u1'', plan_weekStart = 1704672000000\<rparr>]\<rparr>"

section \<open>Properties of the calendar\<close>

lemma div_succ:
  fixes a k :: int
  assumes "0 < k"
  shows "(a + 1) div k = a div k + (if (a + 1) mod k = 0 then 1 else 0)"
proof -
  have e: "a = k * (a div k) + a mod k" by simp
  have r: "0 \<le> a mod k" "a mod k < k" using assms by simp_all
  show ?thesis
  proof (cases "a mod k + 1 = k")
    case True
    have "k * (a div k + 1) + 0 = k * (a div k) + (a mod k + 1)"
      using True by (simp add: algebra_simps)
    also have "\<dots> = a + 1" using e by linarith
    finally have eq: "a + 1 = k * (a div k + 1) + 0" by simp
    have "(a + 1) div k = a div k + 1"
      by (rule int_div_pos_eq[OF eq]) (use assms in simp_all)
    moreover have "(a + 1) mod k = 0"
      by (rule int_mod_pos_eq[OF eq]) (use assms in simp_all)
    ultimately show ?thesis by simp
  next
    case False
    then have lt: "a mod k + 1 < k" using r by linarith
    have eq: "a + 1 = k * (a div k) + (a mod k + 1)" using e by linarith
    have "(a + 1) div k = a div k"
      by (rule int_div_pos_eq[OF eq]) (use r lt in simp_all)
    moreover have "(a + 1) mod k = a mod k + 1"
      by (rule int_mod_pos_eq[OF eq]) (use r lt in simp_all)
    ultimately show ?thesis using r by simp
  qed
qed

lemma mod_shift4: "((y::int) - 1968) mod 4 = 0 \<longleftrightarrow> y mod 4 = 0"
proof -
  have "y - 1968 = y + 4 * (- 492)" by simp
  then have "(y - 1968) mod 4 = y mod 4" by (metis mod_mult_self2)
  then show ?thesis by simp
qed

lemma mod_shift100: "((y::int) - 1900) mod 100 = 0 \<longleftrightarrow> y mod 100 = 0"
proof -
  have "y - 1900 = y + 100 * (- 19)" by simp
  then have "(y - 1900) mod 100 = y mod 100" by (metis mod_mult_self2)
  then show ?thesis by simp
qed

lemma mod_shift400: "((y::int) - 1600) mod 400 = 0 \<longleftrightarrow> y mod 400 = 0"
proof -
  have "y - 1600 = y + 400 * (- 4)" by simp
  then have "(y - 1600) mod 400 = y mod 400" by (metis mod_mult_self2)
  then show ?thesis by simp
qed

lemma mod_100_4: "(y::int) mod 100 = 0 \<Longrightarrow> y mod 4 = 0"
proof -
  assume "y mod 100 = 0"
  then have "100 dvd y" by (simp add: dvd_eq_mod_eq_0)
  moreover have "(4::int) dvd 100" by simp
  ultimately have "4 dvd y" by (rule dvd_trans[rotated])
  then show ?thesis by (simp add: dvd_eq_mod_eq_0)
qed

lemma mod_400_100: "(y::int) mod 400 = 0 \<Longrightarrow> y mod 100 = 0"
proof -
  assume "y mod 400 = 0"
  then have "400 dvd y" by (simp add: dvd_eq_mod_eq_0)
  moreover have "(100::int) dvd 400" by simp
  ultimately have "100 dvd y" by (rule dvd_trans[rotated])
  then show ?thesis by (simp add: dvd_eq_mod_eq_0)
qed

text \<open>A year's first day and the next year's are a year's length apart.\<close>

lemma DayFromYear_step: "DayFromYear (y + 1) = DayFromYear y + DaysInYear y"
proof -
  have a: "(y + 1 - 1969) div 4 = (y - 1969) div 4 + (if y mod 4 = 0 then 1 else 0)"
    using div_succ[of 4 "y - 1969"] mod_shift4[of y] by (simp add: algebra_simps)
  have b: "(y + 1 - 1901) div 100 = (y - 1901) div 100 + (if y mod 100 = 0 then 1 else 0)"
    using div_succ[of 100 "y - 1901"] mod_shift100[of y] by (simp add: algebra_simps)
  have c: "(y + 1 - 1601) div 400 = (y - 1601) div 400 + (if y mod 400 = 0 then 1 else 0)"
    using div_succ[of 400 "y - 1601"] mod_shift400[of y] by (simp add: algebra_simps)
  show ?thesis
    unfolding DayFromYear_def DaysInYear_def a b c
    using mod_100_4[of y] mod_400_100[of y] by auto
qed

lemma DaysInYear_cases: "DaysInYear y = 365 \<or> DaysInYear y = 366"
  by (simp add: DaysInYear_def)

lemma InLeapYear_cases: "InLeapYear y = 0 \<or> InLeapYear y = 1"
  by (simp add: InLeapYear_def)

lemma DaysInYear_leap: "DaysInYear y = 365 + InLeapYear y"
  using DaysInYear_cases[of y] by (auto simp: InLeapYear_def)

lemma div_lower_bound: "0 < (k::int) \<Longrightarrow> a - (k - 1) \<le> k * (a div k)"
proof -
  assume k: "0 < k"
  have "a = k * (a div k) + a mod k" by simp
  moreover have "a mod k < k" using k by simp
  ultimately show ?thesis by linarith
qed

lemma div_upper_bound: "0 < (k::int) \<Longrightarrow> k * (a div k) \<le> a"
proof -
  assume k: "0 < k"
  have "a = k * (a div k) + a mod k" by simp
  moreover have "0 \<le> a mod k" using k by simp
  ultimately show ?thesis by linarith
qed

text \<open>The first day of year \<open>1970 + j\<close> is within two days of \<open>j\<close> mean years.\<close>

lemma DayFromYear_estimate:
  "146097 * j - 506 \<le> 400 * DayFromYear (1970 + j) \<and>
   400 * DayFromYear (1970 + j) \<le> 146097 * j + 589"
proof -
  define p where "p = (j + 1) div 4"
  define q where "q = (j + 69) div 100"
  define r where "r = (j + 369) div 400"
  have e: "400 * DayFromYear (1970 + j) = 146000 * j + 400 * p - 400 * q + 400 * r"
    by (simp add: DayFromYear_def p_def q_def r_def add.commute)
  have p1: "j - 2 \<le> 4 * p" and p2: "4 * p \<le> j + 1"
    using div_lower_bound[of 4 "j + 1"] div_upper_bound[of 4 "j + 1"] by (simp_all add: p_def)
  have q1: "j - 30 \<le> 100 * q" and q2: "100 * q \<le> j + 69"
    using div_lower_bound[of 100 "j + 69"] div_upper_bound[of 100 "j + 69"] by (simp_all add: q_def)
  have r1: "j - 30 \<le> 400 * r" and r2: "400 * r \<le> j + 369"
    using div_lower_bound[of 400 "j + 369"] div_upper_bound[of 400 "j + 369"] by (simp_all add: r_def)
  have "146097 * j - 506 \<le> 146000 * j + 400 * p - 400 * q + 400 * r"
    using p1 q2 r1 by linarith
  moreover have "146000 * j + 400 * p - 400 * q + 400 * r \<le> 146097 * j + 589"
    using p2 q1 r2 by linarith
  ultimately show ?thesis unfolding e by simp
qed

lemmas DayFromYear_lower = DayFromYear_estimate[THEN conjunct1]
lemmas DayFromYear_upper = DayFromYear_estimate[THEN conjunct2]

text \<open>\<open>YearFromDay\<close> is the year the day lies in \<dots>\<close>

lemma YearFromDay_bounds:
  "DayFromYear (YearFromDay n) \<le> n \<and> n < DayFromYear (YearFromDay n + 1)"
proof -
  define k where "k = (400 * n) div 146097"
  have k1: "146097 * k \<le> 400 * n" and k2: "400 * n < 146097 * k + 146097"
    unfolding k_def by linarith+
  have a: "DayFromYear (1970 + k - 1) \<le> n"
    using DayFromYear_upper[of "k - 1"] k1 by (simp add: algebra_simps)
  have b: "n < DayFromYear (1970 + k + 2)"
    using DayFromYear_lower[of "k + 2"] k2 by (simp add: algebra_simps)
  have s1: "DayFromYear (1970 + k - 1 + 1) = DayFromYear (1970 + k)" by simp
  have s2: "DayFromYear (1970 + k + 1 + 1) = DayFromYear (1970 + k + 2)" by (simp add: algebra_simps)
  show ?thesis
    unfolding YearFromDay_def Let_def k_def[symmetric]
    using a b s1 s2 by auto
qed

lemma DayFromYear_mono_nat: "DayFromYear a \<le> DayFromYear (a + int k)"
proof (induction k)
  case 0
  show ?case by simp
next
  case (Suc k)
  have "DayFromYear (a + int (Suc k)) = DayFromYear (a + int k + 1)"
    by (simp add: algebra_simps)
  also have "\<dots> = DayFromYear (a + int k) + DaysInYear (a + int k)"
    by (rule DayFromYear_step)
  finally show ?case using Suc DaysInYear_cases[of "a + int k"] by linarith
qed

lemma DayFromYear_mono: "a \<le> b \<Longrightarrow> DayFromYear a \<le> DayFromYear b"
  using DayFromYear_mono_nat[of a "nat (b - a)"] by simp

text \<open>\<dots> and the only one: the largest year that starts on or before the day.\<close>

lemma YearFromDay_unique:
  assumes "DayFromYear y \<le> n" and "n < DayFromYear (y + 1)"
  shows "YearFromDay n = y"
proof (rule ccontr)
  assume ne: "YearFromDay n \<noteq> y"
  note b = YearFromDay_bounds[of n]
  show False
  proof (cases "YearFromDay n < y")
    case True
    then have "DayFromYear (YearFromDay n + 1) \<le> DayFromYear y"
      by (intro DayFromYear_mono) simp
    with b assms show False by linarith
  next
    case False
    with ne have "DayFromYear (y + 1) \<le> DayFromYear (YearFromDay n)"
      by (intro DayFromYear_mono) simp
    with b assms show False by linarith
  qed
qed

lemma DayWithinYear_range:
  "0 \<le> DayWithinYear n \<and> DayWithinYear n < 365 + InLeapYear (YearFromDay n)"
  using YearFromDay_bounds[of n] DayFromYear_step[of "YearFromDay n"]
    DaysInYear_leap[of "YearFromDay n"]
  by (simp add: DayWithinYear_def)

lemma MonthFromDay_range: "0 \<le> MonthFromDay n \<and> MonthFromDay n \<le> 11"
  by (simp add: MonthFromDay_def Let_def)

text \<open>Every day number is a day that its month has.\<close>

lemma DateFromDay_range:
  "1 \<le> DateFromDay n \<and> DateFromDay n \<le> daysInMonth (YearFromDay n) (MonthFromDay n + 1)"
  using DayWithinYear_range[of n] InLeapYear_cases[of "YearFromDay n"]
  unfolding DateFromDay_def MonthFromDay_def daysInMonth_def Let_def
  by (auto split: if_splits)

lemma daysInMonth_le_31: "daysInMonth y m \<le> 31"
  using InLeapYear_cases[of y] by (auto simp: daysInMonth_def)

text \<open>A calendar date, made a day number and read back, is the same date.\<close>

lemma civil_roundtrip:
  assumes m: "1 \<le> m" "m \<le> 12" and d: "1 \<le> d" "d \<le> daysInMonth y m"
  shows "YearFromDay (MakeDay y (m - 1) d) = y \<and>
         MonthFromDay (MakeDay y (m - 1) d) = m - 1 \<and>
         DateFromDay (MakeDay y (m - 1) d) = d"
proof -
  define n where "n = MakeDay y (m - 1) d"
  define l where "l = InLeapYear y"
  have l: "l = 0 \<or> l = 1" using InLeapYear_cases[of y] by (simp add: l_def)
  have mm: "(m - 1) div 12 = 0" "(m - 1) mod 12 = m - 1" using m by simp_all
  have n: "n = DayFromYear y + monthStart l (m - 1) + d - 1"
    by (simp add: n_def MakeDay_def Let_def mm l_def)
  have cases: "m = 1 \<or> m = 2 \<or> m = 3 \<or> m = 4 \<or> m = 5 \<or> m = 6 \<or> m = 7 \<or> m = 8 \<or>
      m = 9 \<or> m = 10 \<or> m = 11 \<or> m = 12"
    using m by presburger
  have w: "0 \<le> monthStart l (m - 1) + d - 1 \<and> monthStart l (m - 1) + d - 1 < 365 + l"
    using cases
    by (elim disjE; insert l d; simp add: monthStart_def daysInMonth_def l_def[symmetric]; linarith)
  have yr: "YearFromDay n = y"
  proof (rule YearFromDay_unique)
    show "DayFromYear y \<le> n" using w n by linarith
    show "n < DayFromYear (y + 1)"
      using w n DayFromYear_step[of y] DaysInYear_leap[of y] by (simp add: l_def)
  qed
  have dw: "DayWithinYear n = monthStart l (m - 1) + d - 1"
    unfolding DayWithinYear_def yr by (simp add: n)
  have mo: "MonthFromDay n = m - 1"
    unfolding MonthFromDay_def Let_def dw yr l_def[symmetric]
    using cases
    by (elim disjE; insert l d; simp add: monthStart_def daysInMonth_def l_def[symmetric]; linarith)
  have da: "DateFromDay n = d"
    unfolding DateFromDay_def Let_def dw yr mo l_def[symmetric]
    using cases
    by (elim disjE; simp add: monthStart_def)
  show ?thesis using yr mo da by (simp add: n_def)
qed

subsection \<open>Digits and date strings\<close>

lemma digitChar_digitVal: "isDigit c \<Longrightarrow> digitChar (digitVal c) = c"
proof -
  assume "isDigit c"
  then have "48 + nat (int (of_char c) - 48) = (of_char c :: nat)"
    unfolding isDigit_def by linarith
  then show ?thesis by (simp add: digitChar_def digitVal_def)
qed

lemma digitVal_range: "isDigit c \<Longrightarrow> 0 \<le> digitVal c \<and> digitVal c \<le> 9"
  by (auto simp: isDigit_def digitVal_def)

lemma digitVal_digitChar: "0 \<le> v \<Longrightarrow> v \<le> 9 \<Longrightarrow> digitVal (digitChar v) = v"
  by (simp add: digitChar_def digitVal_def)

lemma isDigit_digitChar: "0 \<le> v \<Longrightarrow> v \<le> 9 \<Longrightarrow> isDigit (digitChar v)"
  by (simp add: digitChar_def isDigit_def)

lemma parseDigits_snoc: "parseDigits (ds @ [c]) = 10 * parseDigits ds + digitVal c"
  by (simp add: parseDigits_def)

lemma length_padDigits: "length (padDigits k n) = k"
  by (induction k arbitrary: n) simp_all

lemma padDigits_digits: "0 \<le> n \<Longrightarrow> list_all isDigit (padDigits k n)"
proof (induction k arbitrary: n)
  case 0
  show ?case by simp
next
  case (Suc k)
  have "0 \<le> n div 10" using Suc.prems by simp
  moreover have "0 \<le> n mod 10" "n mod 10 \<le> 9" by simp_all
  ultimately show ?case using Suc.IH[of "n div 10"] by (simp add: isDigit_digitChar)
qed

lemma parseDigits_padDigits: "0 \<le> n \<Longrightarrow> n < 10 ^ k \<Longrightarrow> parseDigits (padDigits k n) = n"
proof (induction k arbitrary: n)
  case 0
  then show ?case by (simp add: parseDigits_def)
next
  case (Suc k)
  have a: "0 \<le> n div 10" using Suc.prems by simp
  have b: "n div 10 < 10 ^ k" using Suc.prems by simp
  have r: "0 \<le> n mod 10" "n mod 10 \<le> 9" by simp_all
  show ?case
    using Suc.IH[OF a b] r by (simp add: parseDigits_snoc digitVal_digitChar)
qed

lemma padDigits_parseDigits:
  "list_all isDigit ds \<Longrightarrow> padDigits (length ds) (parseDigits ds) = ds"
proof (induction ds rule: rev_induct)
  case Nil
  show ?case by simp
next
  case (snoc c ds)
  have r: "0 \<le> digitVal c" "digitVal c \<le> 9" using snoc.prems digitVal_range[of c] by simp_all
  have d: "(10 * parseDigits ds + digitVal c) div 10 = parseDigits ds"
    using r by simp
  have m: "(10 * parseDigits ds + digitVal c) mod 10 = digitVal c"
    using r by simp
  have "padDigits (length (ds @ [c])) (parseDigits (ds @ [c]))
          = padDigits (length ds) ((10 * parseDigits ds + digitVal c) div 10)
              @ [digitChar ((10 * parseDigits ds + digitVal c) mod 10)]"
    by (simp add: parseDigits_snoc)
  also have "\<dots> = padDigits (length ds) (parseDigits ds) @ [digitChar (digitVal c)]"
    unfolding d m by simp
  also have "\<dots> = ds @ [c]"
    using snoc by (simp add: digitChar_digitVal)
  finally show ?case .
qed

lemma parseDigits_range:
  "list_all isDigit ds \<Longrightarrow> 0 \<le> parseDigits ds \<and> parseDigits ds < 10 ^ length ds"
proof (induction ds rule: rev_induct)
  case Nil
  show ?case by (simp add: parseDigits_def)
next
  case (snoc c ds)
  have r: "0 \<le> digitVal c" "digitVal c \<le> 9" using snoc.prems digitVal_range[of c] by simp_all
  show ?case using snoc r by (simp add: parseDigits_snoc)
qed

text \<open>A string the pattern matches is the string of its three fields \<dots>\<close>

lemma regex_dateString:
  assumes "DATE_ONLY_REGEX_test s" and "dateFields s = (y, m, d)"
  shows "s = dateString y m d \<and> 0 \<le> y \<and> y \<le> 9999 \<and> 0 \<le> m \<and> m \<le> 99 \<and> 0 \<le> d \<and> d \<le> 99"
proof -
  from assms(1) obtain y1 y2 y3 y4 m1 m2 d1 d2 where
    s: "s = [y1, y2, y3, y4, CHR ''-'', m1, m2, CHR ''-'', d1, d2]"
    and dy: "list_all isDigit [y1, y2, y3, y4]"
    and dm: "list_all isDigit [m1, m2]"
    and dd: "list_all isDigit [d1, d2]"
    by (elim DATE_ONLY_REGEX_test.elims) auto
  have y: "y = parseDigits [y1, y2, y3, y4]" and m: "m = parseDigits [m1, m2]"
    and d: "d = parseDigits [d1, d2]"
    using assms(2) by (simp_all add: dateFields_def s)
  have py: "padDigits 4 y = [y1, y2, y3, y4]"
    using padDigits_parseDigits[OF dy] by (simp add: y eval_nat_numeral)
  have pm: "padDigits 2 m = [m1, m2]"
    using padDigits_parseDigits[OF dm] by (simp add: m eval_nat_numeral)
  have pd: "padDigits 2 d = [d1, d2]"
    using padDigits_parseDigits[OF dd] by (simp add: d eval_nat_numeral)
  have "s = dateString y m d"
    unfolding dateString_def py pm pd by (simp add: s)
  moreover have "0 \<le> y \<and> y \<le> 9999"
    using parseDigits_range[OF dy] by (simp add: y)
  moreover have "0 \<le> m \<and> m \<le> 99"
    using parseDigits_range[OF dm] by (simp add: m)
  moreover have "0 \<le> d \<and> d \<le> 99"
    using parseDigits_range[OF dd] by (simp add: d)
  ultimately show ?thesis by simp
qed

text \<open>\<dots> and the string of three fields in range matches, with these fields.\<close>

lemma dateString_regex:
  assumes "0 \<le> y" "y \<le> 9999" "0 \<le> m" "m \<le> 99" "0 \<le> d" "d \<le> 99"
  shows "DATE_ONLY_REGEX_test (dateString y m d) \<and> dateFields (dateString y m d) = (y, m, d)"
proof -
  obtain y1 y2 y3 y4 where py: "padDigits 4 y = [y1, y2, y3, y4]"
    by (simp add: eval_nat_numeral)
  obtain m1 m2 where pm: "padDigits 2 m = [m1, m2]"
    by (simp add: eval_nat_numeral)
  obtain d1 d2 where pd: "padDigits 2 d = [d1, d2]"
    by (simp add: eval_nat_numeral)
  have s: "dateString y m d = [y1, y2, y3, y4, CHR ''-'', m1, m2, CHR ''-'', d1, d2]"
    by (simp add: dateString_def py pm pd)
  have dy: "list_all isDigit [y1, y2, y3, y4]"
    using padDigits_digits[OF assms(1), of 4] by (simp add: py)
  have dm: "list_all isDigit [m1, m2]"
    using padDigits_digits[OF assms(3), of 2] by (simp add: pm)
  have dd: "list_all isDigit [d1, d2]"
    using padDigits_digits[OF assms(5), of 2] by (simp add: pd)
  have fy: "parseDigits [y1, y2, y3, y4] = y"
    using parseDigits_padDigits[OF assms(1), of 4] assms(2) by (simp add: py)
  have fm: "parseDigits [m1, m2] = m"
    using parseDigits_padDigits[OF assms(3), of 2] assms(4) by (simp add: pm)
  have fd: "parseDigits [d1, d2] = d"
    using parseDigits_padDigits[OF assms(5), of 2] assms(6) by (simp add: pd)
  show ?thesis
    unfolding s using dy dm dd fy fm fd by (simp add: dateFields_def)
qed

lemma Day_midnight: "Day (n * msPerDay) = n"
  by (simp add: Day_def msPerDay_def)

lemma formatDateOnly_year4:
  assumes "0 \<le> YearFromDay (Day t)" "YearFromDay (Day t) \<le> 9999"
  shows "formatDateOnly t =
           dateString (YearFromDay (Day t)) (MonthFromDay (Day t) + 1) (DateFromDay (Day t))"
  using assms
  by (simp add: formatDateOnly_def toISOString_def Let_def isoYearString_def dateString_def
      length_padDigits)

lemma regex_hd_digit: "DATE_ONLY_REGEX_test s \<Longrightarrow> \<exists>c cs. s = c # cs \<and> isDigit c"
  by (elim DATE_ONLY_REGEX_test.elims) auto

lemma formatDateOnly_extended:
  assumes "\<not> (0 \<le> YearFromDay (Day t) \<and> YearFromDay (Day t) \<le> 9999)"
  shows "\<not> DATE_ONLY_REGEX_test (formatDateOnly t)"
proof
  assume "DATE_ONLY_REGEX_test (formatDateOnly t)"
  then obtain c cs where f: "formatDateOnly t = c # cs" and c: "isDigit c"
    using regex_hd_digit by blast
  have "\<exists>cs'. formatDateOnly t = CHR ''-'' # cs' \<or> formatDateOnly t = CHR ''+'' # cs'"
    using assms
    by (simp add: formatDateOnly_def toISOString_def Let_def isoYearString_def)
  with f have "c = CHR ''-'' \<or> c = CHR ''+''" by auto
  with c show False by (auto simp: isDigit_def)
qed

text \<open>
  What \<open>parseDateOnly\<close> returns for a string the pattern matches: the midnight of the
  day when the fields are a calendar date, and nothing otherwise.
\<close>

lemma parseDateOnly_char:
  assumes re: "DATE_ONLY_REGEX_test s" and f: "dateFields s = (y, m, d)"
  shows "parseDateOnly s =
           (if 1 \<le> m \<and> m \<le> 12 \<and> 1 \<le> d \<and> d \<le> daysInMonth y m
            then Some (MakeDay y (m - 1) d * msPerDay) else None)"
proof -
  note rs = regex_dateString[OF re f]
  define t where "t = MakeDay y (m - 1) d * msPerDay"
  have dt: "Day t = MakeDay y (m - 1) d" by (simp add: t_def Day_midnight)
  have nd: "newDateUtcMidnight s =
      (if 1 \<le> m \<and> m \<le> 12 \<and> 1 \<le> d \<and> d \<le> 31 then Some t else None)"
    using f by (simp add: newDateUtcMidnight_def dateFields_def Let_def t_def)
  show ?thesis
  proof (cases "1 \<le> m \<and> m \<le> 12 \<and> 1 \<le> d \<and> d \<le> daysInMonth y m")
    case True
    then have d31: "d \<le> 31" using daysInMonth_le_31[of y m] by linarith
    have rt: "YearFromDay (Day t) = y" "MonthFromDay (Day t) = m - 1" "DateFromDay (Day t) = d"
      using civil_roundtrip[of m d y] True by (simp_all add: dt)
    have "formatDateOnly t = dateString y m d"
      using formatDateOnly_year4[of t] rs by (simp add: rt)
    then have "formatDateOnly t = s" using rs by simp
    then show ?thesis using True d31 re nd by (simp add: parseDateOnly_def t_def)
  next
    case False
    show ?thesis
    proof (cases "1 \<le> m \<and> m \<le> 12 \<and> 1 \<le> d \<and> d \<le> 31")
      case r: True
      have "formatDateOnly t \<noteq> s"
      proof
        assume eq: "formatDateOnly t = s"
        have yr: "0 \<le> YearFromDay (Day t) \<and> YearFromDay (Day t) \<le> 9999"
          using formatDateOnly_extended[of t] re eq by auto
        have fs: "s = dateString (YearFromDay (Day t)) (MonthFromDay (Day t) + 1) (DateFromDay (Day t))"
          using formatDateOnly_year4[of t] yr eq by simp
        have mr: "0 \<le> MonthFromDay (Day t) + 1" "MonthFromDay (Day t) + 1 \<le> 99"
          using MonthFromDay_range[of "Day t"] by simp_all
        have dr: "0 \<le> DateFromDay (Day t)" "DateFromDay (Day t) \<le> 99"
          using DateFromDay_range[of "Day t"]
            daysInMonth_le_31[of "YearFromDay (Day t)" "MonthFromDay (Day t) + 1"] by simp_all
        have "dateFields s = (YearFromDay (Day t), MonthFromDay (Day t) + 1, DateFromDay (Day t))"
          using dateString_regex[of "YearFromDay (Day t)" "MonthFromDay (Day t) + 1" "DateFromDay (Day t)"]
            yr mr dr fs by simp
        with f have "y = YearFromDay (Day t)" "m = MonthFromDay (Day t) + 1" "d = DateFromDay (Day t)"
          by simp_all
        with DateFromDay_range[of "Day t"] have "d \<le> daysInMonth y m" by simp
        with r False show False by simp
      qed
      then show ?thesis using False re nd r by (simp add: parseDateOnly_def)
    next
      case r: False
      then show ?thesis using False re nd by (simp add: parseDateOnly_def)
    qed
  qed
qed

text \<open>Whatever \<open>parseDateOnly\<close> returns formats back to its argument: its last line checks it.\<close>

lemma parseDateOnly_format: "parseDateOnly s = Some t \<Longrightarrow> formatDateOnly t = s"
  by (auto simp: parseDateOnly_def split: if_splits option.splits)

lemma parseDateOnly_regex: "parseDateOnly s = Some t \<Longrightarrow> DATE_ONLY_REGEX_test s"
  by (auto simp: parseDateOnly_def split: if_splits)

text \<open>\<open>parseDateOnly\<close> accepts the calendar dates and nothing else.\<close>

lemma isCalendarDate_parse:
  "parseDateOnly s = (if isCalendarDate s
     then (case dateFields s of (y, m, d) \<Rightarrow> Some (MakeDay y (m - 1) d * msPerDay)) else None)"
proof (cases "DATE_ONLY_REGEX_test s")
  case True
  obtain y m d where f: "dateFields s = (y, m, d)" by (cases "dateFields s") auto
  show ?thesis
    using parseDateOnly_char[OF True f] True f by (simp add: isCalendarDate_def)
next
  case False
  then show ?thesis by (simp add: isCalendarDate_def parseDateOnly_def)
qed

section \<open>Properties of the nutrition aggregator\<close>


















text \<open>
  Below zero the two roundings part at a tie: \<open>round1\<close> sends \<open>-0.25\<close> up to \<open>-0.2\<close>. The
  aggregator never rounds a negative value.
\<close>

lemma round1_negative_tie:
  "round1 (- (1 / 4)) = - (1 / 5) \<and> roundHalfAwayFromZero1 (- (1 / 4)) = - (3 / 10)"
proof -
  have "round1 (- (1 / 4)) = - (1 / 5)"
    by (simp add: round1_def Math_round_def)
  moreover have "roundHalfAwayFromZero1 (- (1 / 4)) = - (3 / 10)"
    by (simp add: roundHalfAwayFromZero1_def)
  ultimately show ?thesis by simp
qed

section \<open>Properties of the role handlers\<close>

lemma updateUserRole_ids: "map user_id (users (updateUserRole db tid r)) = map user_id (users db)"
  by (simp add: updateUserRole_def comp_def)

lemma find_user_id: "find (\<lambda>u. user_id u = tid) us = Some t \<Longrightarrow> user_id t = tid \<and> t \<in> set us"
  by (induction us) (auto split: if_splits)

lemma admin_filter_update:
  assumes "distinct (map user_id us)" and "find (\<lambda>u. user_id u = tid) us = Some t"
  shows "length (filter (\<lambda>u. user_role u = ADMIN)
             (map (\<lambda>u. if user_id u = tid then u\<lparr>user_role := r\<rparr> else u) us))
           + (if user_role t = ADMIN then 1 else 0)
         = length (filter (\<lambda>u. user_role u = ADMIN) us) + (if r = ADMIN then 1 else 0)"
  using assms
proof (induction us)
  case Nil
  then show ?case by simp
next
  case (Cons u us)
  show ?case
  proof (cases "user_id u = tid")
    case True
    then have t: "t = u" using Cons.prems(2) by simp
    have "tid \<notin> user_id ` set us" using Cons.prems(1) True by auto
    then have "\<forall>v \<in> set us. user_id v \<noteq> tid" by blast
    then have "map (\<lambda>u. if user_id u = tid then u\<lparr>user_role := r\<rparr> else u) us = us"
      by (induction us) auto
    then show ?thesis using True t by simp
  next
    case False
    then have "find (\<lambda>u. user_id u = tid) us = Some t" using Cons.prems(2) by simp
    with Cons.IH Cons.prems(1) False show ?thesis by simp
  qed
qed

lemma adminCount_update:
  assumes "distinct (map user_id (users db))" and "find (\<lambda>u. user_id u = tid) (users db) = Some t"
  shows "adminCount (updateUserRole db tid r) + (if user_role t = ADMIN then 1 else 0)
           = adminCount db + (if r = ADMIN then 1 else 0)"
  using admin_filter_update[OF assms, of r] by (simp add: adminCount_def updateUserRole_def)

lemma patchUserRole_keeps_admin:
  assumes "distinct (map user_id (users db))" and "1 \<le> adminCount db"
  shows "1 \<le> adminCount (snd (patchUserRole db user tid r))"
proof (cases "requireAdmin db user = None \<and> tid \<noteq> []")
  case False
  then show ?thesis using assms(2) by (auto simp: patchUserRole_def split: option.splits)
next
  case ok: True
  show ?thesis
  proof (cases "find (\<lambda>u. user_id u = tid) (users db)")
    case None
    then show ?thesis using ok assms(2) by (simp add: patchUserRole_def)
  next
    case (Some t)
    note upd = adminCount_update[OF assms(1) Some, of r]
    show ?thesis
    proof (cases "user_role t = ADMIN \<and> r = USER \<and> adminCount db \<le> 1")
      case True
      then show ?thesis using ok Some assms(2) by (simp add: patchUserRole_def)
    next
      case False
      then have "1 \<le> adminCount (updateUserRole db tid r)"
        using upd assms(2) by (cases r; cases "user_role t") (auto split: if_splits)
      then show ?thesis using ok Some False by (auto simp: patchUserRole_def)
    qed
  qed
qed

lemma bootstrapSelf_keeps_admin:
  assumes "1 \<le> adminCount db"
  shows "snd (bootstrapSelf db user) = db"
  using assms by (auto simp: bootstrapSelf_def split: option.splits)

lemma roleStep_ids: "map user_id (users (roleStep db req)) = map user_id (users db)"
  by (cases req)
     (auto simp: patchUserRole_def bootstrapSelf_def updateUserRole_ids split: option.splits)

lemma roleStep_keeps_admin:
  assumes "distinct (map user_id (users db))" and "1 \<le> adminCount db"
  shows "1 \<le> adminCount (roleStep db req)"
  using assms patchUserRole_keeps_admin bootstrapSelf_keeps_admin by (cases req) auto

lemma roleRun_keeps_admin:
  assumes "distinct (map user_id (users db))" and "1 \<le> adminCount db"
  shows "1 \<le> adminCount (roleRun db reqs)"
  using assms
proof (induction reqs arbitrary: db)
  case Nil
  then show ?case by (simp add: roleRun_def)
next
  case (Cons req reqs)
  have "distinct (map user_id (users (roleStep db req)))"
    using Cons.prems(1) by (simp add: roleStep_ids)
  moreover have "1 \<le> adminCount (roleStep db req)"
    using Cons.prems by (rule roleStep_keeps_admin)
  ultimately have "1 \<le> adminCount (roleRun (roleStep db req) reqs)"
    by (rule Cons.IH)
  then show ?case by (simp add: roleRun_def)
qed

lemma find_update_role:
  "find (\<lambda>u. user_id u = tid) us = Some t \<Longrightarrow>
   find (\<lambda>u. user_id u = tid) (map (\<lambda>u. if user_id u = tid then u\<lparr>user_role := r\<rparr> else u) us)
     = Some (t\<lparr>user_role := r\<rparr>)"
  by (induction us) (auto split: if_splits)

section \<open>Properties of the meal-plan handlers\<close>

subsection \<open>The comparator and the sort\<close>

lemma localeCompare_less: "localeCompare a b < 0 \<longleftrightarrow> a < b"
  by (induction a b rule: localeCompare.induct) (auto simp: less_char_def)

lemma localeCompare_eq: "localeCompare a b = 0 \<longleftrightarrow> a = b"
  by (induction a b rule: localeCompare.induct) auto

lemma indexOf_range: "indexOf xs x = - 1 \<or> (0 \<le> indexOf xs x \<and> indexOf xs x < int (length xs))"
  by (induction xs) (auto simp: Let_def)

lemma compareMeals_le: "compareMeals a b \<le> 0 \<longleftrightarrow> mealKey a \<le> mealKey b"
proof (cases "localeCompare (mv_date a) (mv_date b) = 0")
  case True
  then have "mv_date a = mv_date b" by (simp add: localeCompare_eq)
  then show ?thesis using True by (simp add: compareMeals_def mealKey_def Let_def)
next
  case False
  then have ne: "mv_date a \<noteq> mv_date b" by (simp add: localeCompare_eq)
  have "localeCompare (mv_date a) (mv_date b) \<le> 0 \<longleftrightarrow> mv_date a < mv_date b"
    using False localeCompare_less[of "mv_date a" "mv_date b"] by linarith
  then show ?thesis using False ne by (auto simp: compareMeals_def mealKey_def Let_def)
qed

lemma set_insertSorted: "set (insertSorted cmp x ys) = insert x (set ys)"
  by (induction ys) auto

lemma mset_insertSorted: "mset (insertSorted cmp x ys) = add_mset x (mset ys)"
  by (induction ys) auto

lemma mset_sortBy: "mset (sortBy cmp xs) = mset xs"
  by (induction xs) (auto simp: mset_insertSorted)

lemma sorted_insertSorted:
  assumes "\<And>a b. cmp a b \<le> 0 \<longleftrightarrow> key a \<le> (key b :: 'k :: linorder)"
    and "sorted (map key ys)"
  shows "sorted (map key (insertSorted cmp x ys))"
  using assms(2)
proof (induction ys)
  case Nil
  show ?case by simp
next
  case (Cons y ys)
  show ?case
  proof (cases "cmp x y \<le> 0")
    case True
    then have "key x \<le> key y" using assms(1) by simp
    then show ?thesis using True Cons.prems by auto
  next
    case False
    then have "key y \<le> key x" using assms(1)[of x y] by simp
    then show ?thesis using False Cons by (auto simp: set_insertSorted)
  qed
qed

lemma sorted_sortBy:
  assumes "\<And>a b. cmp a b \<le> 0 \<longleftrightarrow> key a \<le> (key b :: 'k :: linorder)"
  shows "sorted (map key (sortBy cmp xs))"
  by (induction xs) (auto intro: sorted_insertSorted[OF assms])

lemma sorted_sortBy_meals: "sorted (map mealKey (sortBy compareMeals xs))"
  by (rule sorted_sortBy) (rule compareMeals_le)




subsection \<open>The two validation passes\<close>

lemma parseMeals_Inr: "parseMeals ws ins = Inr ms \<Longrightarrow> list_all2 (parsedOf ws) ins ms"
proof (induction ins arbitrary: ms)
  case Nil
  then show ?case by simp
next
  case (Cons i ins)
  from Cons.prems obtain d ms' where d: "parseDateOnly (in_date i) = Some d"
    and w: "isWithinWeek d ws" and r: "parseMeals ws ins = Inr ms'"
    and ms: "ms = \<lparr>pm_date = d, pm_slot = in_slot i, pm_recipeId = in_recipeId i\<rparr> # ms'"
    by (auto split: option.splits if_splits sum.splits)
  show ?case using Cons.IH[OF r] d w ms by (simp add: parsedOf_def)
qed

lemma parseMeals_succeeds:
  "\<forall>i \<in> set ins. \<exists>d. parseDateOnly (in_date i) = Some d \<and> isWithinWeek d ws \<Longrightarrow>
   \<exists>ms. parseMeals ws ins = Inr ms"
  by (induction ins) (auto split: option.splits)

lemma parsedOf_date: "parsedOf ws i p \<Longrightarrow> formatDateOnly (pm_date p) = in_date i"
  by (simp add: parsedOf_def parseDateOnly_format)

lemma regex_length: "DATE_ONLY_REGEX_test s \<Longrightarrow> length s = 10"
  by (elim DATE_ONLY_REGEX_test.elims) auto

lemma parsedOf_length: "parsedOf ws i p \<Longrightarrow> length (in_date i) = 10"
  using parseDateOnly_regex regex_length by (auto simp: parsedOf_def)

lemma parsedOf_key:
  assumes "parsedOf ws i p" and "parsedOf ws i' p'"
  shows "slotKey p = slotKey p' \<longleftrightarrow> in_date i = in_date i' \<and> in_slot i = in_slot i'"
proof -
  have "slotKey p = in_date i @ '':'' @ in_slot i" "slotKey p' = in_date i' @ '':'' @ in_slot i'"
    using assms parsedOf_date by (simp_all add: slotKey_def parsedOf_def)
  moreover have "length (in_date i) = length (in_date i')"
    using assms parsedOf_length by simp
  ultimately show ?thesis by auto
qed

text \<open>
  The second loop stops at the first meal whose key was seen, and otherwise finds
  nothing.
\<close>

lemma duplicateSlot_None:
  "duplicateSlot seen ms = None \<longleftrightarrow>
     distinct (map slotKey ms) \<and> set (map slotKey ms) \<inter> seen = {}"
  by (induction ms arbitrary: seen) auto

lemma duplicateSlot_Some:
  assumes "\<not> (distinct (map slotKey ms) \<and> set (map slotKey ms) \<inter> seen = {})"
  shows "\<exists>pre m post. ms = pre @ m # post \<and>
           distinct (map slotKey pre) \<and> set (map slotKey pre) \<inter> seen = {} \<and>
           slotKey m \<in> seen \<union> set (map slotKey pre) \<and>
           duplicateSlot seen ms =
             Some (HttpError 400 (''Duplicate slot for date '' @ formatDateOnly (pm_date m)))"
  using assms
proof (induction ms arbitrary: seen)
  case Nil
  then show ?case by simp
next
  case (Cons x ms)
  show ?case
  proof (cases "slotKey x \<in> seen")
    case True
    have "x # ms = [] @ x # ms \<and> distinct (map slotKey []) \<and> set (map slotKey []) \<inter> seen = {} \<and>
          slotKey x \<in> seen \<union> set (map slotKey []) \<and>
          duplicateSlot seen (x # ms) =
             Some (HttpError 400 (''Duplicate slot for date '' @ formatDateOnly (pm_date x)))"
      using True by simp
    then show ?thesis by blast
  next
    case False
    have "\<not> (distinct (map slotKey ms) \<and> set (map slotKey ms) \<inter> insert (slotKey x) seen = {})"
      using Cons.prems False by auto
    from Cons.IH[OF this] obtain pre m post where
      ms: "ms = pre @ m # post" and d: "distinct (map slotKey pre)"
      and i: "set (map slotKey pre) \<inter> insert (slotKey x) seen = {}"
      and k: "slotKey m \<in> insert (slotKey x) seen \<union> set (map slotKey pre)"
      and r: "duplicateSlot (insert (slotKey x) seen) ms =
             Some (HttpError 400 (''Duplicate slot for date '' @ formatDateOnly (pm_date m)))"
      by blast
    have "x # ms = (x # pre) @ m # post \<and> distinct (map slotKey (x # pre)) \<and>
          set (map slotKey (x # pre)) \<inter> seen = {} \<and>
          slotKey m \<in> seen \<union> set (map slotKey (x # pre)) \<and>
          duplicateSlot seen (x # ms) =
             Some (HttpError 400 (''Duplicate slot for date '' @ formatDateOnly (pm_date m)))"
      using ms d i k r False by auto
    then show ?thesis by blast
  qed
qed

subsection \<open>The recipe check\<close>

lemma uniqueInOrder_set: "set (uniqueInOrder seen xs) = set seen \<union> set xs"
  by (induction xs arbitrary: seen) auto

lemma uniqueInOrder_distinct: "distinct seen \<Longrightarrow> distinct (uniqueInOrder seen xs)"
  by (induction xs arbitrary: seen) auto

lemma findRecipes_ids:
  assumes "distinct (map recipe_id (recipes db))"
  shows "distinct (map recipe_id (findRecipes db userId ids)) \<and>
         set (map recipe_id (findRecipes db userId ids)) \<subseteq> set ids"
  using assms by (auto simp: findRecipes_def distinct_map_filter)

lemma findRecipes_length:
  assumes "distinct (map recipe_id (recipes db))" and "distinct ids"
  shows "length (findRecipes db userId ids) \<le> length ids"
proof -
  note f = findRecipes_ids[OF assms(1), of userId ids]
  have "length (findRecipes db userId ids) = card (set (map recipe_id (findRecipes db userId ids)))"
    using f distinct_card[of "map recipe_id (findRecipes db userId ids)"] by simp
  also have "\<dots> \<le> card (set ids)" using f by (intro card_mono) auto
  also have "\<dots> = length ids" using assms(2) by (simp add: distinct_card)
  finally show ?thesis .
qed

lemma findRecipes_all:
  assumes "distinct (map recipe_id (recipes db))" and "distinct ids"
  shows "length (findRecipes db userId ids) = length ids \<longleftrightarrow> (\<forall>rid \<in> set ids. ownsRecipe db userId rid)"
proof -
  note f = findRecipes_ids[OF assms(1), of userId ids]
  let ?found = "set (map recipe_id (findRecipes db userId ids))"
  have c: "card ?found = length (findRecipes db userId ids)"
    using f distinct_card[of "map recipe_id (findRecipes db userId ids)"] by simp
  have l: "card (set ids) = length ids" using assms(2) by (simp add: distinct_card)
  have owns: "\<And>rid. rid \<in> ?found \<longleftrightarrow> rid \<in> set ids \<and> ownsRecipe db userId rid"
    by (auto simp: findRecipes_def ownsRecipe_def)
  show ?thesis
  proof
    assume "length (findRecipes db userId ids) = length ids"
    then have "card ?found = card (set ids)" using c l by simp
    then have "?found = set ids" using f by (intro card_subset_eq) auto
    then show "\<forall>rid \<in> set ids. ownsRecipe db userId rid" using owns by blast
  next
    assume "\<forall>rid \<in> set ids. ownsRecipe db userId rid"
    then have "?found = set ids" using owns by blast
    then show "length (findRecipes db userId ids) = length ids" using c l by simp
  qed
qed

lemma checkRecipes_None:
  assumes "distinct (map recipe_id (recipes db))"
  shows "snd (checkRecipes db userId ms) = None \<longleftrightarrow>
           (\<forall>m \<in> set ms. ownsRecipe db userId (pm_recipeId m))"
proof -
  define ids where "ids = uniqueInOrder [] (map pm_recipeId ms)"
  have d: "distinct ids" by (simp add: ids_def uniqueInOrder_distinct)
  have s: "set ids = pm_recipeId ` set ms" by (simp add: ids_def uniqueInOrder_set)
  show ?thesis
  proof (cases "ids = []")
    case True
    then have "ms = []" using s by auto
    then show ?thesis by (simp add: checkRecipes_def)
  next
    case False
    then have "snd (checkRecipes db userId ms) = None \<longleftrightarrow>
        length (findRecipes db userId ids) = length ids"
      by (simp add: checkRecipes_def ids_def[symmetric] Let_def)
    then show ?thesis using findRecipes_all[OF assms d, of userId] s by auto
  qed
qed

lemma savePlan_error_code: "savePlan db newId userId ws ms = Inl e \<Longrightarrow> \<exists>msg. e = HttpError 500 msg"
  by (auto simp: savePlan_def Let_def split: option.splits if_splits sum.splits prod.splits)

subsection \<open>The transaction and the read after it\<close>

lemma find_append_Some: "find P xs = Some x \<Longrightarrow> find P (xs @ ys) = Some x"
  by (induction xs) (auto split: if_splits)

lemma find_append_None: "find P xs = None \<Longrightarrow> find P (xs @ ys) = find P ys"
  by (induction xs) (auto split: if_splits)

lemma find_Some_P: "find P xs = Some x \<Longrightarrow> P x \<and> x \<in> set xs"
  by (induction xs) (auto split: if_splits)

lemma planMeals_replace:
  "filter (\<lambda>m. meal_planId m = pid)
     (filter (\<lambda>m. meal_planId m \<noteq> pid) rows @ map (mealRow pid) ms) = map (mealRow pid) ms"
proof -
  have "filter (\<lambda>m. meal_planId m = pid) (filter (\<lambda>m. meal_planId m \<noteq> pid) rows) = []"
    by (induction rows) auto
  moreover have "filter (\<lambda>m. meal_planId m = pid) (map (mealRow pid) ms) = map (mealRow pid) ms"
    by (induction ms) (auto simp: mealRow_def)
  ultimately show ?thesis by simp
qed

lemma savePlan_Inr:
  assumes "savePlan db newId userId ws ms = Inr (p, rows, db')"
  shows "(\<exists>q. planOf db' userId ws = Some q \<and> plan_id q = plan_id p) \<and>
         rows = planMeals db' (plan_id p) \<and>
         planMeals db' (plan_id p) = map (mealRow (plan_id p)) ms \<and>
         recipes db' = recipes db \<and> users db' = users db \<and>
         (mealPlans db' = mealPlans db \<or>
          mealPlans db' = mealPlans db @
            [\<lparr>plan_id = newId, plan_userId = userId, plan_weekStart = ws\<rparr>])"
proof (cases "planOf db userId ws")
  case (Some q)
  define db2 where "db2 = db\<lparr>plannedMeals := filter (\<lambda>m. meal_planId m \<noteq> plan_id q) (plannedMeals db)\<rparr>"
  define db3 where "db3 = (if length ms > 0
      then db2\<lparr>plannedMeals := plannedMeals db2 @ map (mealRow (plan_id q)) ms\<rparr> else db2)"
  from assms Some have r: "find (\<lambda>p. plan_id p = plan_id q) (mealPlans db3) = Some p"
    and rows: "rows = planMeals db3 (plan_id q)" and db': "db' = db3"
    by (auto simp: savePlan_def planOf_def Let_def db2_def db3_def mealRow_def[abs_def]
        split: if_splits option.splits)
  have pid: "plan_id p = plan_id q" using find_Some_P[OF r] by simp
  have mp: "mealPlans db3 = mealPlans db" by (simp add: db3_def db2_def)
  have pm: "planMeals db3 (plan_id q) = map (mealRow (plan_id q)) ms"
  proof -
    have "plannedMeals db3 = filter (\<lambda>m. meal_planId m \<noteq> plan_id q) (plannedMeals db)
            @ map (mealRow (plan_id q)) ms"
      by (cases ms) (simp_all add: db3_def db2_def)
    then show ?thesis unfolding planMeals_def by (simp only: planMeals_replace)
  qed
  have "planOf db3 userId ws = Some q" using Some mp by (simp add: planOf_def)
  then show ?thesis using pid rows db' pm mp by (simp add: db3_def db2_def)
next
  case None
  define new where "new = \<lparr>plan_id = newId, plan_userId = userId, plan_weekStart = ws\<rparr>"
  define db1 where "db1 = db\<lparr>mealPlans := mealPlans db @ [new]\<rparr>"
  define db2 where "db2 = db1\<lparr>plannedMeals := filter (\<lambda>m. meal_planId m \<noteq> newId) (plannedMeals db1)\<rparr>"
  define db3 where "db3 = (if length ms > 0
      then db2\<lparr>plannedMeals := plannedMeals db2 @ map (mealRow newId) ms\<rparr> else db2)"
  from assms None have r: "find (\<lambda>p. plan_id p = newId) (mealPlans db3) = Some p"
    and rows: "rows = planMeals db3 newId" and db': "db' = db3"
    by (auto simp: savePlan_def planOf_def Let_def db1_def db2_def db3_def mealRow_def[abs_def] new_def
        split: if_splits option.splits)
  have pid: "plan_id p = newId" using find_Some_P[OF r] by simp
  have mp: "mealPlans db3 = mealPlans db @ [new]" by (simp add: db3_def db2_def db1_def)
  have pm: "planMeals db3 newId = map (mealRow newId) ms"
  proof -
    have "plannedMeals db3 = filter (\<lambda>m. meal_planId m \<noteq> newId) (plannedMeals db)
            @ map (mealRow newId) ms"
      by (cases ms) (simp_all add: db3_def db2_def db1_def)
    then show ?thesis unfolding planMeals_def by (simp only: planMeals_replace)
  qed
  have "planOf db3 userId ws = Some new"
    using None by (simp add: planOf_def mp find_append_None new_def)
  then show ?thesis using pid rows db' pm mp
    by (simp add: db3_def db2_def db1_def new_def)
qed

lemma putMealPlans_Inr:
  assumes "putMealPlans db newId user body = (Inr resp, db')"
  shows "\<exists>userId ws ms p rows.
           user = Some userId \<and> bodyValid body \<and>
           parseDateOnly (body_weekStart body) = Some ws \<and>
           parseMeals ws (body_meals body) = Inr ms \<and>
           duplicateSlot {} ms = None \<and>
           snd (checkRecipes db userId ms) = None \<and>
           savePlan db newId userId ws ms = Inr (p, rows, db') \<and>
           sortedMealViews db' rows = Some (resp_meals resp) \<and>
           resp_id resp = Some (plan_id p)"
  using assms
  by (auto simp: putMealPlans_def split: option.splits if_splits sum.splits prod.splits)

lemma mapOption_triples:
  "mapOption (mealView db) rows = Some views \<Longrightarrow> map viewTriple views = map rowTriple rows"
proof (induction rows arbitrary: views)
  case Nil
  then show ?case by simp
next
  case (Cons r rows)
  from Cons.prems obtain v vs where v: "mealView db r = Some v"
    and vs: "mapOption (mealView db) rows = Some vs" and views: "views = v # vs"
    by (auto split: option.splits)
  from v obtain rc where rc: "find (\<lambda>x. recipe_id x = meal_recipeId r) (recipes db) = Some rc"
    and vd: "v = \<lparr>mv_date = formatDateOnly (meal_date r), mv_slot = meal_slot r,
                  mv_recipeId = recipe_id rc, mv_recipeName = recipe_name rc\<rparr>"
    by (auto simp: mealView_def split: option.splits)
  have "recipe_id rc = meal_recipeId r" using find_Some_P[OF rc] by simp
  then have "viewTriple v = rowTriple r" by (simp add: vd viewTriple_def rowTriple_def)
  then show ?case using Cons.IH[OF vs] views by simp
qed

lemma sortedMealViews_triples:
  assumes "sortedMealViews db rows = Some vs"
  shows "mset (map viewTriple vs) = mset (map rowTriple rows) \<and> sorted (map mealKey vs)"
proof -
  from assms obtain views where v: "mapOption (mealView db) rows = Some views"
    and vs: "vs = sortBy compareMeals views"
    by (auto simp: sortedMealViews_def split: option.splits)
  have "mset (map viewTriple vs) = image_mset viewTriple (mset (sortBy compareMeals views))"
    by (simp add: vs)
  also have "\<dots> = mset (map viewTriple views)" by (simp add: mset_sortBy)
  also have "\<dots> = mset (map rowTriple rows)" using mapOption_triples[OF v] by simp
  finally show ?thesis using vs sorted_sortBy_meals by simp
qed


lemma parsed_rows:
  assumes "list_all2 (parsedOf ws) ins ms"
  shows "map rowTriple (map (mealRow pid) ms) = map inputTriple ins"
  using assms
  by (induction rule: list_all2_induct)
     (auto simp: rowTriple_def inputTriple_def mealRow_def parsedOf_def parseDateOnly_format)

lemma getMealPlans_Inr:
  assumes "getMealPlans db user w = Inr r"
  shows "\<exists>userId ws. user = Some userId \<and> parseDateOnly w = Some ws \<and>
           resp_id r = map_option plan_id (planOf db userId ws) \<and>
           resp_weekStart r = w \<and>
           sortedMealViews db (case planOf db userId ws of None \<Rightarrow> []
                                | Some p \<Rightarrow> planMeals db (plan_id p)) = Some (resp_meals r)"
  using assms
  by (auto simp: getMealPlans_def planOf_def Let_def split: option.splits)

lemma get_after_put:
  assumes "putMealPlans db newId user body = (Inr resp, db')"
  shows "getMealPlans db' user (body_weekStart body) =
           Inr \<lparr>resp_id = resp_id resp, resp_weekStart = body_weekStart body,
                resp_meals = resp_meals resp\<rparr>"
proof -
  from putMealPlans_Inr[OF assms] obtain userId ws ms p rows where
    u: "user = Some userId" and w: "parseDateOnly (body_weekStart body) = Some ws"
    and sp: "savePlan db newId userId ws ms = Inr (p, rows, db')"
    and sv: "sortedMealViews db' rows = Some (resp_meals resp)"
    and id: "resp_id resp = Some (plan_id p)"
    by blast
  from savePlan_Inr[OF sp] obtain q where q: "planOf db' userId ws = Some q"
    and qp: "plan_id q = plan_id p" and rows: "rows = planMeals db' (plan_id p)"
    by blast
  show ?thesis
    using u w q qp rows sv id
    by (simp add: getMealPlans_def planOf_def Let_def)
qed

lemma find_None_iff2: "find P xs = None \<longleftrightarrow> (\<forall>x \<in> set xs. \<not> P x)"
  by (induction xs) auto

lemma mapOption_Some:
  "\<forall>x \<in> set xs. f x \<noteq> None \<Longrightarrow> \<exists>ys. mapOption f xs = Some ys"
  by (induction xs) (auto split: option.splits)

lemma mealView_Some:
  "meal_recipeId m \<in> recipe_id ` set (recipes db) \<Longrightarrow> mealView db m \<noteq> None"
  by (auto simp: mealView_def find_None_iff2 split: option.splits)

lemma ownsRecipe_exists: "ownsRecipe db userId rid \<Longrightarrow> rid \<in> recipe_id ` set (recipes db)"
  by (auto simp: ownsRecipe_def)

lemma savePlan_succeeds:
  assumes fresh: "planOf db userId ws = None \<longrightarrow> newId \<notin> plan_id ` set (mealPlans db)"
    and fk: "\<forall>m \<in> set ms. pm_recipeId m \<in> recipe_id ` set (recipes db)"
  shows "\<exists>p rows db'. savePlan db newId userId ws ms = Inr (p, rows, db')"
proof (cases "planOf db userId ws")
  case (Some q)
  have q: "q \<in> set (mealPlans db)" using find_Some_P[of _ "mealPlans db" q] Some
    by (simp add: planOf_def)
  then have "find (\<lambda>p. plan_id p = plan_id q) (mealPlans db) \<noteq> None"
    by (auto simp: find_None_iff2)
  then obtain p where "find (\<lambda>p. plan_id p = plan_id q) (mealPlans db) = Some p" by auto
  then show ?thesis
    using Some fk by (auto simp: savePlan_def planOf_def Let_def list_all_iff)
next
  case None
  define new where "new = \<lparr>plan_id = newId, plan_userId = userId, plan_weekStart = ws\<rparr>"
  have "find (\<lambda>p. plan_id p = newId) (mealPlans db @ [new]) \<noteq> None"
    by (auto simp: find_None_iff2 new_def)
  then obtain p where "find (\<lambda>p. plan_id p = newId) (mealPlans db @ [new]) = Some p" by auto
  then show ?thesis
    using None fresh fk by (auto simp: savePlan_def planOf_def Let_def list_all_iff new_def)
qed

lemma putMealPlans_succeeds:
  assumes ids: "distinct (map recipe_id (recipes db))"
    and valid: "bodyValid body"
    and ws: "parseDateOnly (body_weekStart body) = Some ws"
    and dates: "\<forall>m \<in> set (body_meals body).
                  \<exists>d. parseDateOnly (in_date m) = Some d \<and> isWithinWeek d ws"
    and nodup: "distinct (map (\<lambda>m. (in_date m, in_slot m)) (body_meals body))"
    and owned: "\<forall>m \<in> set (body_meals body). ownsRecipe db userId (in_recipeId m)"
    and fresh: "planOf db userId ws = None \<longrightarrow> newId \<notin> plan_id ` set (mealPlans db)"
  shows "\<exists>resp db'. putMealPlans db newId (Some userId) body = (Inr resp, db')"
proof -
  define ins where "ins = body_meals body"
  obtain ms where pm: "parseMeals ws ins = Inr ms"
    using parseMeals_succeeds[of ins ws] dates by (auto simp: ins_def)
  note rel = parseMeals_Inr[OF pm]
  have len: "length ms = length ins" using rel by (simp add: list_all2_lengthD)
  have nth: "\<And>k. k < length ins \<Longrightarrow> parsedOf ws (ins ! k) (ms ! k)"
    using rel by (simp add: list_all2_nthD)
  have dk: "distinct (map slotKey ms)"
  proof (unfold distinct_conv_nth, intro allI impI)
    fix i j assume a: "i < length (map slotKey ms)" "j < length (map slotKey ms)" "i \<noteq> j"
    then have ij: "i < length ins" "j < length ins" using len by simp_all
    have "(in_date (ins ! i), in_slot (ins ! i)) \<noteq> (in_date (ins ! j), in_slot (ins ! j))"
      using nodup ij a(3) by (auto simp: distinct_conv_nth ins_def)
    then have "slotKey (ms ! i) \<noteq> slotKey (ms ! j)"
      using parsedOf_key[OF nth[OF ij(1)] nth[OF ij(2)]] by auto
    then show "map slotKey ms ! i \<noteq> map slotKey ms ! j" using ij len by simp
  qed
  then have dup: "duplicateSlot {} ms = None" by (simp add: duplicateSlot_None)
  have rid: "pm_recipeId ` set ms = in_recipeId ` set ins"
  proof -
    have "map pm_recipeId ms = map in_recipeId ins"
      using rel by (induction rule: list_all2_induct) (auto simp: parsedOf_def)
    then have "set (map pm_recipeId ms) = set (map in_recipeId ins)" by simp
    then show ?thesis by simp
  qed
  have own: "\<forall>m \<in> set ms. ownsRecipe db userId (pm_recipeId m)"
  proof
    fix m assume "m \<in> set ms"
    then have "pm_recipeId m \<in> in_recipeId ` set ins" using rid by blast
    then show "ownsRecipe db userId (pm_recipeId m)" using owned by (auto simp: ins_def)
  qed
  then have chk: "snd (checkRecipes db userId ms) = None"
    using checkRecipes_None[OF ids] by simp
  have fk: "\<forall>m \<in> set ms. pm_recipeId m \<in> recipe_id ` set (recipes db)"
    using own ownsRecipe_exists by blast
  obtain p rows db' where sp: "savePlan db newId userId ws ms = Inr (p, rows, db')"
    using savePlan_succeeds[OF fresh fk] by blast
  from savePlan_Inr[OF sp] have rows: "rows = map (mealRow (plan_id p)) ms"
    and rec: "recipes db' = recipes db" by simp_all
  have "\<forall>r \<in> set rows. mealView db' r \<noteq> None"
  proof
    fix r assume "r \<in> set rows"
    then obtain m where m: "m \<in> set ms" and r: "r = mealRow (plan_id p) m"
      by (auto simp: rows)
    have "meal_recipeId r \<in> recipe_id ` set (recipes db')"
      using fk m rec by (simp add: r mealRow_def)
    then show "mealView db' r \<noteq> None" by (rule mealView_Some)
  qed
  then obtain views where "mapOption (mealView db') rows = Some views"
    using mapOption_Some by blast
  then have "sortedMealViews db' rows = Some (sortBy compareMeals views)"
    by (simp add: sortedMealViews_def)
  then show ?thesis
    using valid ws pm dup chk sp by (simp add: putMealPlans_def ins_def)
qed

lemma put_stored:
  assumes "putMealPlans db newId user body = (Inr resp, db')"
  shows "\<exists>pid. resp_id resp = Some pid \<and>
           map rowTriple (planMeals db' pid) = map inputTriple (body_meals body) \<and>
           mset (map viewTriple (resp_meals resp)) = mset (map inputTriple (body_meals body)) \<and>
           sorted (map mealKey (resp_meals resp))"
proof -
  from putMealPlans_Inr[OF assms] obtain userId ws ms p rows where
    pm: "parseMeals ws (body_meals body) = Inr ms"
    and sp: "savePlan db newId userId ws ms = Inr (p, rows, db')"
    and sv: "sortedMealViews db' rows = Some (resp_meals resp)"
    and id: "resp_id resp = Some (plan_id p)"
    by blast
  from savePlan_Inr[OF sp] have rows: "rows = planMeals db' (plan_id p)"
    and stored: "planMeals db' (plan_id p) = map (mealRow (plan_id p)) ms"
    by blast+
  have tr: "map rowTriple (planMeals db' (plan_id p)) = map inputTriple (body_meals body)"
    unfolding stored by (rule parsed_rows[OF parseMeals_Inr[OF pm]])
  have ms: "mset (map viewTriple (resp_meals resp)) = mset (map inputTriple (body_meals body))"
    using sortedMealViews_triples[OF sv] rows tr by simp
  show ?thesis using id tr ms sortedMealViews_triples[OF sv] by blast
qed

lemma putMealPlans_cases:
  "snd (putMealPlans db newId user body) = db \<or>
   (\<exists>userId ws ms p rows.
      savePlan db newId userId ws ms = Inr (p, rows, snd (putMealPlans db newId user body)))"
proof (cases user)
  case None
  then show ?thesis by (simp add: putMealPlans_def)
next
  case (Some userId)
  show ?thesis
  proof (cases "bodyValid body")
    case False
    then show ?thesis using Some by (simp add: putMealPlans_def)
  next
    case bv: True
    show ?thesis
    proof (cases "parseDateOnly (body_weekStart body)")
      case None
      then show ?thesis using Some bv by (simp add: putMealPlans_def)
    next
      case ws: (Some ws)
      show ?thesis
      proof (cases "parseMeals ws (body_meals body)")
        case (Inl e)
        then show ?thesis using Some bv ws by (simp add: putMealPlans_def)
      next
        case ms: (Inr ms)
        show ?thesis
        proof (cases "duplicateSlot {} ms")
          case (Some e)
          then show ?thesis using \<open>user = Some userId\<close> bv ws ms by (simp add: putMealPlans_def)
        next
          case dup: None
          show ?thesis
          proof (cases "snd (checkRecipes db userId ms)")
            case (Some e)
            then show ?thesis
              using \<open>user = Some userId\<close> bv ws ms dup by (simp add: putMealPlans_def)
          next
            case chk: None
            show ?thesis
            proof (cases "savePlan db newId userId ws ms")
              case (Inl e)
              then show ?thesis
                using \<open>user = Some userId\<close> bv ws ms dup chk by (simp add: putMealPlans_def)
            next
              case (Inr t)
              obtain p rows db' where t: "t = (p, rows, db')" by (cases t)
              have "snd (putMealPlans db newId user body) = db'"
                using \<open>user = Some userId\<close> bv ws ms dup chk Inr t
                by (simp add: putMealPlans_def split: option.splits)
              then show ?thesis using Inr t by blast
            qed
          qed
        qed
      qed
    qed
  qed
qed

lemma putMealPlans_plans:
  "mealPlans (snd (putMealPlans db newId user body)) = mealPlans db \<or>
   (\<exists>new. mealPlans (snd (putMealPlans db newId user body)) = mealPlans db @ [new])"
  using putMealPlans_cases[of db newId user body] savePlan_Inr by fastforce

lemma putMealPlans_keeps_plan:
  assumes "planOf db userId ws = Some q"
  shows "planOf (snd (putMealPlans db newId user body)) userId ws = Some q"
  using putMealPlans_plans[of db newId user body] assms
  by (auto simp: planOf_def find_append_Some)

lemma putRun_keeps_plan:
  assumes "planOf db userId ws = Some q"
  shows "planOf (putRun db reqs) userId ws = Some q"
  using assms
proof (induction reqs arbitrary: db)
  case Nil
  then show ?case by simp
next
  case (Cons req reqs)
  obtain newId user body where req: "req = (newId, user, body)" by (cases req)
  show ?case
    using Cons.IH[OF putMealPlans_keeps_plan[OF Cons.prems, of newId user body]]
    by (simp add: req)
qed

subsection \<open>Date strings order as dates do\<close>












section \<open>The claims about dates\<close>

text \<open>
  Claim C5. For every string \<open>s\<close> that is a calendar date in the form YYYY-MM-DD,
  \<open>parseDateOnly\<close> returns a date and \<open>formatDateOnly\<close> of that date is \<open>s\<close> again;
  for every other string, of the wrong shape or naming a day that does not exist,
  \<open>parseDateOnly\<close> returns nothing, as for 2024-13-01, 2024-02-30 and 20240101. A string
  of the right shape that the engine turns into a date is rejected exactly when that
  date formats to a different string: 2024-02-30 becomes 1 March 2024, which formats to
  2024-03-01. (A month or day outside 1 to 12 or 1 to 31 never becomes a date.)
\<close>

theorem parseDateOnly_roundtrip:
  "(isCalendarDate s \<longrightarrow> (\<exists>t. parseDateOnly s = Some t \<and> formatDateOnly t = s)) \<and>
   (\<not> isCalendarDate s \<longrightarrow> parseDateOnly s = None) \<and>
   (0 \<le> y \<and> y \<le> 9999 \<and> 1 \<le> m \<and> m \<le> 12 \<and> 1 \<le> d \<and> d \<le> daysInMonth y m \<longrightarrow>
      isCalendarDate (dateString y m d) \<and>
      parseDateOnly (dateString y m d) = Some (MakeDay y (m - 1) d * msPerDay) \<and>
      formatDateOnly (MakeDay y (m - 1) d * msPerDay) = dateString y m d) \<and>
   parseDateOnly ''2024-13-01'' = None \<and>
   parseDateOnly ''2024-02-30'' = None \<and>
   parseDateOnly ''20240101'' = None \<and>
   (DATE_ONLY_REGEX_test s \<and> newDateUtcMidnight s = Some t \<longrightarrow>
      (parseDateOnly s = None \<longleftrightarrow> formatDateOnly t \<noteq> s)) \<and>
   newDateUtcMidnight ''2024-02-30'' = Some 1709251200000 \<and>
   formatDateOnly 1709251200000 = ''2024-03-01''"
proof -
  have a: "isCalendarDate s \<longrightarrow> (\<exists>t. parseDateOnly s = Some t \<and> formatDateOnly t = s)"
  proof
    assume c: "isCalendarDate s"
    then obtain t where t: "parseDateOnly s = Some t"
      by (cases "dateFields s") (simp add: isCalendarDate_parse)
    with parseDateOnly_format[OF t] show "\<exists>t. parseDateOnly s = Some t \<and> formatDateOnly t = s"
      by blast
  qed
  have b: "\<not> isCalendarDate s \<longrightarrow> parseDateOnly s = None"
    by (simp add: isCalendarDate_parse)
  have c: "0 \<le> y \<and> y \<le> 9999 \<and> 1 \<le> m \<and> m \<le> 12 \<and> 1 \<le> d \<and> d \<le> daysInMonth y m \<longrightarrow>
      isCalendarDate (dateString y m d) \<and>
      parseDateOnly (dateString y m d) = Some (MakeDay y (m - 1) d * msPerDay) \<and>
      formatDateOnly (MakeDay y (m - 1) d * msPerDay) = dateString y m d"
  proof
    assume h: "0 \<le> y \<and> y \<le> 9999 \<and> 1 \<le> m \<and> m \<le> 12 \<and> 1 \<le> d \<and> d \<le> daysInMonth y m"
    then have d99: "d \<le> 99" using daysInMonth_le_31[of y m] by linarith
    have r: "DATE_ONLY_REGEX_test (dateString y m d)" "dateFields (dateString y m d) = (y, m, d)"
      using dateString_regex[of y m d] h d99 by simp_all
    have cal: "isCalendarDate (dateString y m d)"
      using r h by (simp add: isCalendarDate_def)
    have p: "parseDateOnly (dateString y m d) = Some (MakeDay y (m - 1) d * msPerDay)"
      using cal r by (simp add: isCalendarDate_parse)
    show "isCalendarDate (dateString y m d) \<and>
      parseDateOnly (dateString y m d) = Some (MakeDay y (m - 1) d * msPerDay) \<and>
      formatDateOnly (MakeDay y (m - 1) d * msPerDay) = dateString y m d"
      using cal p parseDateOnly_format[OF p] by simp
  qed
  have e1: "parseDateOnly ''2024-13-01'' = None" by code_simp
  have e2: "parseDateOnly ''2024-02-30'' = None" by code_simp
  have e3: "parseDateOnly ''20240101'' = None" by code_simp
  have f: "DATE_ONLY_REGEX_test s \<and> newDateUtcMidnight s = Some t \<longrightarrow>
      (parseDateOnly s = None \<longleftrightarrow> formatDateOnly t \<noteq> s)"
    by (simp add: parseDateOnly_def)
  have g1: "newDateUtcMidnight ''2024-02-30'' = Some 1709251200000" by code_simp
  have g2: "formatDateOnly 1709251200000 = ''2024-03-01''" by code_simp
  show ?thesis using a b c e1 e2 e3 f g1 g2 by blast
qed

text \<open>The theorem at 29 February of a leap year and of a common year.\<close>

theorem parseDateOnly_roundtrip_witness:
  "isCalendarDate ''2024-02-29'' \<and>
   parseDateOnly ''2024-02-29'' = Some 1709164800000 \<and>
   formatDateOnly 1709164800000 = ''2024-02-29'' \<and>
   \<not> isCalendarDate ''2023-02-29'' \<and> parseDateOnly ''2023-02-29'' = None \<and>
   dateString 2024 2 29 = ''2024-02-29'' \<and> MakeDay 2024 (2 - 1) 29 * msPerDay = 1709164800000 \<and>
   DATE_ONLY_REGEX_test ''2023-02-29'' \<and> newDateUtcMidnight ''2023-02-29'' = Some 1677628800000 \<and>
   formatDateOnly 1677628800000 = ''2023-03-01''"
proof -
  have c1: "isCalendarDate ''2024-02-29''" by code_simp
  have c2: "\<not> isCalendarDate ''2023-02-29''" by code_simp
  have p: "parseDateOnly ''2024-02-29'' = Some 1709164800000" by code_simp
  have r: "DATE_ONLY_REGEX_test ''2023-02-29''" by code_simp
  have n: "newDateUtcMidnight ''2023-02-29'' = Some 1677628800000" by code_simp
  have fm: "formatDateOnly 1677628800000 = ''2023-03-01''" by code_simp
  have ds: "dateString 2024 2 29 = ''2024-02-29''" by code_simp
  have mk: "MakeDay 2024 (2 - 1) 29 * msPerDay = 1709164800000" by code_simp
  note t1 = parseDateOnly_roundtrip[of "''2024-02-29''" 2024 2 29 1709164800000]
  note t2 = parseDateOnly_roundtrip[of "''2023-02-29''" 2024 2 29 1677628800000]
  from t1 c1 p have "formatDateOnly 1709164800000 = ''2024-02-29''" by auto
  moreover from t2 c2 have "parseDateOnly ''2023-02-29'' = None" by blast
  ultimately show ?thesis using c1 c2 p r n fm ds mk by simp
qed

text \<open>
  Claim C6. \<open>isWithinWeek date weekStart\<close> holds exactly when \<open>date - weekStart\<close> is
  from 0 to 6 days; for midnights \<open>d\<close> and \<open>w\<close> days after the epoch, exactly when
  \<open>0 \<le> d - w \<le> 6\<close>. It holds at the offsets 0 and +6 days and fails at +7 days and
  at -1 day.
\<close>

theorem isWithinWeek_closed_window:
  "(isWithinWeek date weekStart \<longleftrightarrow> 0 \<le> date - weekStart \<and> date - weekStart \<le> 6 * msPerDay) \<and>
   (isWithinWeek (d * msPerDay) (w * msPerDay) \<longleftrightarrow> 0 \<le> d - w \<and> d - w \<le> 6) \<and>
   isWithinWeek weekStart weekStart \<and>
   isWithinWeek (weekStart + 6 * msPerDay) weekStart \<and>
   \<not> isWithinWeek (weekStart + 7 * msPerDay) weekStart \<and>
   \<not> isWithinWeek (weekStart - msPerDay) weekStart"
proof -
  have "d * 86400000 - w * 86400000 \<le> 518400000 \<longleftrightarrow> d - w \<le> 6" for d w :: int
    by linarith
  then show ?thesis
    by (simp add: isWithinWeek_def msPerDay_def Let_def)
qed

text \<open>The theorem at the week of 1 January 2024: its Sunday is in, the next Monday is out.\<close>

theorem isWithinWeek_closed_window_witness:
  "isWithinWeek 1704585600000 1704067200000 \<and> \<not> isWithinWeek 1704672000000 1704067200000 \<and>
   Day 1704585600000 - Day 1704067200000 = 6"
proof -
  have a: "(1704585600000::int) = 19729 * msPerDay" "(1704067200000::int) = 19723 * msPerDay"
    "(1704672000000::int) = 19730 * msPerDay"
    by (simp_all add: msPerDay_def)
  have "isWithinWeek (19729 * msPerDay) (19723 * msPerDay)"
    using isWithinWeek_closed_window[of 0 0 19729 19723] by simp
  moreover have "\<not> isWithinWeek (19730 * msPerDay) (19723 * msPerDay)"
    using isWithinWeek_closed_window[of 0 0 19730 19723] by simp
  moreover have "Day 1704585600000 - Day 1704067200000 = 6"
    by (simp add: Day_def msPerDay_def)
  ultimately show ?thesis by (simp add: a)
qed

section \<open>The claims about nutrition\<close>





section \<open>The claim about roles\<close>

text \<open>
  Claim C9. In a store whose user ids are distinct (they are the primary key), once
  there is an admin, every run of role-changing requests
  (\<^verbatim>\<open>PATCH /admin/users/:id/role\<close>, \<^verbatim>\<open>POST /admin/bootstrap-self\<close>), whoever sends
  them, leaves at least one admin. For a request of an admin on an existing user: the
  demotion of an admin when there is at most one admin is answered 409 and changes
  nothing; the demotion of an admin when there are two or more succeeds and leaves one
  admin fewer; every promotion succeeds; and the target then has the requested role.
\<close>

theorem last_admin_kept:
  assumes "distinct (map user_id (users db))"
  shows
   "(1 \<le> adminCount db \<longrightarrow> 1 \<le> adminCount (roleRun db reqs)) \<and>
    (requireAdmin db user = None \<and> tid \<noteq> [] \<and>
     find (\<lambda>u. user_id u = tid) (users db) = Some target \<longrightarrow>
       (user_role target = ADMIN \<and> adminCount db \<le> 1 \<longrightarrow>
          patchUserRole db user tid USER =
            (Inl (HttpError 409 ''Cannot remove admin role from the last admin''), db)) \<and>
       (user_role target = ADMIN \<and> 2 \<le> adminCount db \<longrightarrow>
          patchUserRole db user tid USER =
            (Inr (target\<lparr>user_role := USER\<rparr>), updateUserRole db tid USER) \<and>
          adminCount (updateUserRole db tid USER) + 1 = adminCount db) \<and>
       patchUserRole db user tid ADMIN =
         (Inr (target\<lparr>user_role := ADMIN\<rparr>), updateUserRole db tid ADMIN) \<and>
       find (\<lambda>u. user_id u = tid) (users (updateUserRole db tid r)) =
         Some (target\<lparr>user_role := r\<rparr>))"
proof -
  have run: "1 \<le> adminCount db \<longrightarrow> 1 \<le> adminCount (roleRun db reqs)"
    using roleRun_keeps_admin[OF assms] by blast
  have patch: "requireAdmin db user = None \<and> tid \<noteq> [] \<and>
     find (\<lambda>u. user_id u = tid) (users db) = Some target \<longrightarrow>
       (user_role target = ADMIN \<and> adminCount db \<le> 1 \<longrightarrow>
          patchUserRole db user tid USER =
            (Inl (HttpError 409 ''Cannot remove admin role from the last admin''), db)) \<and>
       (user_role target = ADMIN \<and> 2 \<le> adminCount db \<longrightarrow>
          patchUserRole db user tid USER =
            (Inr (target\<lparr>user_role := USER\<rparr>), updateUserRole db tid USER) \<and>
          adminCount (updateUserRole db tid USER) + 1 = adminCount db) \<and>
       patchUserRole db user tid ADMIN =
         (Inr (target\<lparr>user_role := ADMIN\<rparr>), updateUserRole db tid ADMIN) \<and>
       find (\<lambda>u. user_id u = tid) (users (updateUserRole db tid r)) =
         Some (target\<lparr>user_role := r\<rparr>)"
  proof (intro impI)
    assume h: "requireAdmin db user = None \<and> tid \<noteq> [] \<and>
       find (\<lambda>u. user_id u = tid) (users db) = Some target"
    then have f: "find (\<lambda>u. user_id u = tid) (users db) = Some target" by simp
    have a: "user_role target = ADMIN \<and> adminCount db \<le> 1 \<longrightarrow>
          patchUserRole db user tid USER =
            (Inl (HttpError 409 ''Cannot remove admin role from the last admin''), db)"
      using h by (simp add: patchUserRole_def)
    have b: "user_role target = ADMIN \<and> 2 \<le> adminCount db \<longrightarrow>
          patchUserRole db user tid USER =
            (Inr (target\<lparr>user_role := USER\<rparr>), updateUserRole db tid USER) \<and>
          adminCount (updateUserRole db tid USER) + 1 = adminCount db"
      using h adminCount_update[OF assms f, of USER] by (auto simp: patchUserRole_def)
    have c: "patchUserRole db user tid ADMIN =
         (Inr (target\<lparr>user_role := ADMIN\<rparr>), updateUserRole db tid ADMIN)"
      using h by (simp add: patchUserRole_def)
    have d: "find (\<lambda>u. user_id u = tid) (users (updateUserRole db tid r)) =
         Some (target\<lparr>user_role := r\<rparr>)"
      using find_update_role[OF f, of r] by (simp add: updateUserRole_def)
    show "(user_role target = ADMIN \<and> adminCount db \<le> 1 \<longrightarrow>
          patchUserRole db user tid USER =
            (Inl (HttpError 409 ''Cannot remove admin role from the last admin''), db)) \<and>
       (user_role target = ADMIN \<and> 2 \<le> adminCount db \<longrightarrow>
          patchUserRole db user tid USER =
            (Inr (target\<lparr>user_role := USER\<rparr>), updateUserRole db tid USER) \<and>
          adminCount (updateUserRole db tid USER) + 1 = adminCount db) \<and>
       patchUserRole db user tid ADMIN =
         (Inr (target\<lparr>user_role := ADMIN\<rparr>), updateUserRole db tid ADMIN) \<and>
       find (\<lambda>u. user_id u = tid) (users (updateUserRole db tid r)) =
         Some (target\<lparr>user_role := r\<rparr>)"
      using a b c d by blast
  qed
  show ?thesis using run patch by blast
qed

text \<open>
  The theorem on the store with two admins: the demotion of the second succeeds, the
  demotion of the last is refused, and a promotion restores the first store.
\<close>

theorem last_admin_kept_witness:
  "adminCount twoAdmins = 2 \<and>
   adminCount (roleRun twoAdmins
      [PatchRole (Some ''u1'') ''u2'' USER, PatchRole (Some ''u1'') ''u1'' USER,
       PatchRole (Some ''u2'') ''u1'' USER, BootstrapSelf (Some ''u3'')]) = 1 \<and>
   patchUserRole twoAdmins (Some ''u1'') ''u2'' USER =
     (Inr \<lparr>user_id = ''u2'', user_email = ''rui@example.org'', user_role = USER\<rparr>, oneAdmin) \<and>
   patchUserRole oneAdmin (Some ''u1'') ''u1'' USER =
     (Inl (HttpError 409 ''Cannot remove admin role from the last admin''), oneAdmin) \<and>
   patchUserRole oneAdmin (Some ''u1'') ''u2'' ADMIN =
     (Inr \<lparr>user_id = ''u2'', user_email = ''rui@example.org'', user_role = ADMIN\<rparr>, twoAdmins)"
proof -
  have d2: "distinct (map user_id (users twoAdmins))" by (simp add: twoAdmins_def)
  have d1: "distinct (map user_id (users oneAdmin))" by (simp add: oneAdmin_def)
  have c2: "adminCount twoAdmins = 2" by (simp add: adminCount_def twoAdmins_def)
  have c1: "adminCount oneAdmin = 1" by (simp add: adminCount_def oneAdmin_def)
  have r2: "requireAdmin twoAdmins (Some ''u1'') = None" by (simp add: requireAdmin_def twoAdmins_def)
  have r1: "requireAdmin oneAdmin (Some ''u1'') = None" by (simp add: requireAdmin_def oneAdmin_def)
  have f2: "find (\<lambda>u. user_id u = ''u2'') (users twoAdmins)
              = Some \<lparr>user_id = ''u2'', user_email = ''rui@example.org'', user_role = ADMIN\<rparr>"
    by (simp add: twoAdmins_def)
  have f1: "find (\<lambda>u. user_id u = ''u1'') (users oneAdmin)
              = Some \<lparr>user_id = ''u1'', user_email = ''ana@example.org'', user_role = ADMIN\<rparr>"
    by (simp add: oneAdmin_def)
  have f12: "find (\<lambda>u. user_id u = ''u2'') (users oneAdmin)
              = Some \<lparr>user_id = ''u2'', user_email = ''rui@example.org'', user_role = USER\<rparr>"
    by (simp add: oneAdmin_def)
  have u21: "updateUserRole twoAdmins ''u2'' USER = oneAdmin"
    by (simp add: updateUserRole_def twoAdmins_def oneAdmin_def)
  have u12: "updateUserRole oneAdmin ''u2'' ADMIN = twoAdmins"
    by (simp add: updateUserRole_def twoAdmins_def oneAdmin_def)
  have run: "roleRun twoAdmins
      [PatchRole (Some ''u1'') ''u2'' USER, PatchRole (Some ''u1'') ''u1'' USER,
       PatchRole (Some ''u2'') ''u1'' USER, BootstrapSelf (Some ''u3'')] = oneAdmin"
    by (simp add: roleRun_def patchUserRole_def bootstrapSelf_def requireAdmin_def adminCount_def
        updateUserRole_def twoAdmins_def oneAdmin_def)
  note t2 = last_admin_kept[OF d2, of "[PatchRole (Some ''u1'') ''u2'' USER,
       PatchRole (Some ''u1'') ''u1'' USER, PatchRole (Some ''u2'') ''u1'' USER,
       BootstrapSelf (Some ''u3'')]" "Some ''u1''" "''u2''"
       "\<lparr>user_id = ''u2'', user_email = ''rui@example.org'', user_role = ADMIN\<rparr>" USER]
  note t1 = last_admin_kept[OF d1, of "[]" "Some ''u1''" "''u1''"
       "\<lparr>user_id = ''u1'', user_email = ''ana@example.org'', user_role = ADMIN\<rparr>" USER]
  note t12 = last_admin_kept[OF d1, of "[]" "Some ''u1''" "''u2''"
       "\<lparr>user_id = ''u2'', user_email = ''rui@example.org'', user_role = USER\<rparr>" ADMIN]
  have a: "patchUserRole twoAdmins (Some ''u1'') ''u2'' USER =
     (Inr \<lparr>user_id = ''u2'', user_email = ''rui@example.org'', user_role = USER\<rparr>, oneAdmin)"
    using t2 r2 f2 c2 u21 by simp
  have b: "patchUserRole oneAdmin (Some ''u1'') ''u1'' USER =
     (Inl (HttpError 409 ''Cannot remove admin role from the last admin''), oneAdmin)"
    using t1 r1 f1 c1 by simp
  have c: "patchUserRole oneAdmin (Some ''u1'') ''u2'' ADMIN =
     (Inr \<lparr>user_id = ''u2'', user_email = ''rui@example.org'', user_role = ADMIN\<rparr>, twoAdmins)"
    using t12 r1 f12 u12 by simp
  show ?thesis using a b c c2 c1 run by simp
qed

section \<open>The claims about meal plans\<close>

text \<open>
  Claim C1. A \<^verbatim>\<open>PUT /meal-plans\<close> of an authenticated user succeeds when the body is
  well-formed, the week start and every meal date parse, every date lies in the week, no
  (date, slot) pair is repeated and every recipe is the user's (in a store whose recipe
  ids are distinct, and with an unused id at hand should a plan row be needed). After a
  successful \<^verbatim>\<open>PUT\<close> the meals stored under the plan of (user, week) are exactly the
  submitted ones, in the submitted order, whatever was stored before; \<^verbatim>\<open>GET /meal-plans\<close>
  for that week succeeds and returns the plan's id and the meals of the \<^verbatim>\<open>PUT\<close>
  answer, which are the submitted meals as a multiset; and for an empty list the week
  has no meals and \<^verbatim>\<open>GET\<close> returns an empty list. The deletion and the insertion are one
  step of the store: a failed request leaves the store as it was.
\<close>

theorem put_replaces_week:
  "(distinct (map recipe_id (recipes db)) \<and> bodyValid body \<and>
    parseDateOnly (body_weekStart body) = Some ws \<and>
    (\<forall>m \<in> set (body_meals body). \<exists>d. parseDateOnly (in_date m) = Some d \<and> isWithinWeek d ws) \<and>
    distinct (map (\<lambda>m. (in_date m, in_slot m)) (body_meals body)) \<and>
    (\<forall>m \<in> set (body_meals body). ownsRecipe db userId (in_recipeId m)) \<and>
    (planOf db userId ws = None \<longrightarrow> newId \<notin> plan_id ` set (mealPlans db)) \<longrightarrow>
      (\<exists>resp db'. putMealPlans db newId (Some userId) body = (Inr resp, db'))) \<and>
   (putMealPlans db newId user body = (Inr resp, db') \<longrightarrow>
      (\<exists>r pid. getMealPlans db' user (body_weekStart body) = Inr r \<and>
         resp_id r = Some pid \<and> resp_id resp = Some pid \<and>
         resp_meals r = resp_meals resp \<and>
         map rowTriple (planMeals db' pid) = map inputTriple (body_meals body) \<and>
         mset (map viewTriple (resp_meals r)) = mset (map inputTriple (body_meals body)) \<and>
         (body_meals body = [] \<longrightarrow> planMeals db' pid = [] \<and> resp_meals r = [])))"
proof -
  have a: "distinct (map recipe_id (recipes db)) \<and> bodyValid body \<and>
    parseDateOnly (body_weekStart body) = Some ws \<and>
    (\<forall>m \<in> set (body_meals body). \<exists>d. parseDateOnly (in_date m) = Some d \<and> isWithinWeek d ws) \<and>
    distinct (map (\<lambda>m. (in_date m, in_slot m)) (body_meals body)) \<and>
    (\<forall>m \<in> set (body_meals body). ownsRecipe db userId (in_recipeId m)) \<and>
    (planOf db userId ws = None \<longrightarrow> newId \<notin> plan_id ` set (mealPlans db)) \<longrightarrow>
      (\<exists>resp db'. putMealPlans db newId (Some userId) body = (Inr resp, db'))"
  proof (intro impI, elim conjE)
    assume "distinct (map recipe_id (recipes db))" "bodyValid body"
      "parseDateOnly (body_weekStart body) = Some ws"
      "\<forall>m \<in> set (body_meals body). \<exists>d. parseDateOnly (in_date m) = Some d \<and> isWithinWeek d ws"
      "distinct (map (\<lambda>m. (in_date m, in_slot m)) (body_meals body))"
      "\<forall>m \<in> set (body_meals body). ownsRecipe db userId (in_recipeId m)"
      "planOf db userId ws = None \<longrightarrow> newId \<notin> plan_id ` set (mealPlans db)"
    then show "\<exists>resp db'. putMealPlans db newId (Some userId) body = (Inr resp, db')"
      by (rule putMealPlans_succeeds)
  qed
  have b: "putMealPlans db newId user body = (Inr resp, db') \<longrightarrow>
      (\<exists>r pid. getMealPlans db' user (body_weekStart body) = Inr r \<and>
         resp_id r = Some pid \<and> resp_id resp = Some pid \<and>
         resp_meals r = resp_meals resp \<and>
         map rowTriple (planMeals db' pid) = map inputTriple (body_meals body) \<and>
         mset (map viewTriple (resp_meals r)) = mset (map inputTriple (body_meals body)) \<and>
         (body_meals body = [] \<longrightarrow> planMeals db' pid = [] \<and> resp_meals r = []))"
  proof
    assume p: "putMealPlans db newId user body = (Inr resp, db')"
    from put_stored[OF p] obtain pid where id: "resp_id resp = Some pid"
      and tr: "map rowTriple (planMeals db' pid) = map inputTriple (body_meals body)"
      and ms: "mset (map viewTriple (resp_meals resp)) = mset (map inputTriple (body_meals body))"
      by blast
    define r where "r = \<lparr>resp_id = resp_id resp, resp_weekStart = body_weekStart body,
                  resp_meals = resp_meals resp\<rparr>"
    have g: "getMealPlans db' user (body_weekStart body) = Inr r"
      unfolding r_def by (rule get_after_put[OF p])
    have e: "body_meals body = [] \<longrightarrow> planMeals db' pid = [] \<and> resp_meals r = []"
      using tr ms by (auto simp: r_def)
    show "\<exists>r pid. getMealPlans db' user (body_weekStart body) = Inr r \<and>
         resp_id r = Some pid \<and> resp_id resp = Some pid \<and>
         resp_meals r = resp_meals resp \<and>
         map rowTriple (planMeals db' pid) = map inputTriple (body_meals body) \<and>
         mset (map viewTriple (resp_meals r)) = mset (map inputTriple (body_meals body)) \<and>
         (body_meals body = [] \<longrightarrow> planMeals db' pid = [] \<and> resp_meals r = [])"
      using g id tr ms e by (auto simp: r_def)
  qed
  show ?thesis using a b by blast
qed

text \<open>
  The theorem on the example store, whose first user has one dinner saved for the week
  of 1 January 2024: saving three other meals replaces it.
\<close>

theorem put_replaces_week_witness:
  "putMealPlans planStore ''p2'' (Some ''u1'') weekBody = (Inr savedResponse, savedStore) \<and>
   planMeals planStore ''p1'' =
     [\<lparr>meal_planId = ''p1'', meal_date = 1704067200000, meal_slot = ''dinner'',
       meal_recipeId = ''r2''\<rparr>] \<and>
   getMealPlans savedStore (Some ''u1'') ''2024-01-01'' = Inr savedResponse \<and>
   map rowTriple (planMeals savedStore ''p1'') = map inputTriple (body_meals weekBody) \<and>
   mset (map viewTriple (resp_meals savedResponse)) = mset (map inputTriple (body_meals weekBody))"
proof -
  have p: "putMealPlans planStore ''p2'' (Some ''u1'') weekBody = (Inr savedResponse, savedStore)"
    by code_simp
  have g: "getMealPlans savedStore (Some ''u1'') ''2024-01-01'' = Inr savedResponse"
    by code_simp
  have old: "planMeals planStore ''p1'' =
     [\<lparr>meal_planId = ''p1'', meal_date = 1704067200000, meal_slot = ''dinner'',
       meal_recipeId = ''r2''\<rparr>]"
    by code_simp
  have h1: "distinct (map recipe_id (recipes planStore))" by (simp add: planStore_def)
  have h2: "bodyValid weekBody" by code_simp
  have h3: "parseDateOnly (body_weekStart weekBody) = Some 1704067200000" by code_simp
  have d1: "parseDateOnly ''2024-01-03'' = Some 1704240000000" by code_simp
  have d2: "parseDateOnly ''2024-01-01'' = Some 1704067200000" by code_simp
  have h4: "\<forall>m \<in> set (body_meals weekBody).
      \<exists>d. parseDateOnly (in_date m) = Some d \<and> isWithinWeek d 1704067200000"
    using d1 d2 by (simp add: weekBody_def isWithinWeek_def)
  have h5: "distinct (map (\<lambda>m. (in_date m, in_slot m)) (body_meals weekBody))"
    by (simp add: weekBody_def)
  have h6: "\<forall>m \<in> set (body_meals weekBody). ownsRecipe planStore ''u1'' (in_recipeId m)"
    by (simp add: weekBody_def ownsRecipe_def planStore_def)
  have h7: "planOf planStore ''u1'' 1704067200000 = None \<longrightarrow>
      ''p2'' \<notin> plan_id ` set (mealPlans planStore)"
    by (simp add: planStore_def)
  note t = put_replaces_week[of planStore weekBody 1704067200000 "''u1''" "''p2''" "Some ''u1''"
      savedResponse savedStore]
  have "\<exists>resp db'. putMealPlans planStore ''p2'' (Some ''u1'') weekBody = (Inr resp, db')"
    by (rule mp[OF conjunct1[OF t]]) (intro conjI h1 h2 h3 h4 h5 h6 h7)
  from mp[OF conjunct2[OF t] p] obtain r :: PlanResponse and pid
    where r: "resp_id savedResponse = Some pid"
    "map rowTriple (planMeals savedStore pid) = map inputTriple (body_meals weekBody)"
    "mset (map viewTriple (resp_meals r)) = mset (map inputTriple (body_meals weekBody))"
    "resp_meals r = resp_meals savedResponse"
    by blast
  have "pid = ''p1''" using r(1) by (simp add: savedResponse_def)
  then show ?thesis using p g old r by simp
qed

text \<open>
  Claim C2, as stated, fails: a request that repeats a (date, slot) pair does not always
  get the duplicate-slot error. The week start is parsed and every meal date is parsed
  and checked against the week before the duplicate check runs, so a body whose two
  meals on 2024-01-01 at breakfast lie outside the week of 2024-01-08 is answered with
  the outside-week error.
\<close>

theorem duplicate_slot_counterexample:
  "sameSlot (body_meals lateWeekBody ! 0) (body_meals lateWeekBody ! 1) \<and>
   putMealPlans planStore ''p2'' (Some ''u1'') lateWeekBody =
     (Inl (HttpError 400 ''Meal date is outside selected week: 2024-01-01''), planStore)"
proof -
  have "sameSlot (body_meals lateWeekBody ! 0) (body_meals lateWeekBody ! 1)"
    by (simp add: lateWeekBody_def sameSlot_def)
  moreover have "putMealPlans planStore ''p2'' (Some ''u1'') lateWeekBody =
     (Inl (HttpError 400 ''Meal date is outside selected week: 2024-01-01''), planStore)"
    by code_simp
  ultimately show ?thesis by simp
qed

text \<open>
  Claim C2, amended. For every \<^verbatim>\<open>PUT /meal-plans\<close> of an authenticated user whose
  body is well-formed, whose week start parses and whose meal dates all parse and lie in
  the week, and whose meals contain two entries with the same (date, slot): the request
  is answered 400 with the message \<^verbatim>\<open>Duplicate slot for date\<close> followed by the date of the
  first entry, in submission order, that repeats an earlier one; and the store is
  unchanged.
\<close>

theorem duplicate_slot_rejected:
  assumes "bodyValid body"
    and "parseDateOnly (body_weekStart body) = Some ws"
    and "\<forall>m \<in> set (body_meals body). \<exists>d. parseDateOnly (in_date m) = Some d \<and> isWithinWeek d ws"
    and "\<exists>i j. i < j \<and> j < length (body_meals body) \<and>
               sameSlot (body_meals body ! i) (body_meals body ! j)"
  shows "\<exists>j < length (body_meals body).
           (\<exists>i < j. sameSlot (body_meals body ! i) (body_meals body ! j)) \<and>
           (\<forall>j' < j. \<forall>i < j'. \<not> sameSlot (body_meals body ! i) (body_meals body ! j')) \<and>
           putMealPlans db newId (Some userId) body =
             (Inl (HttpError 400 (''Duplicate slot for date '' @ in_date (body_meals body ! j))), db)"
proof -
  define ins where "ins = body_meals body"
  obtain ms where pm: "parseMeals ws ins = Inr ms"
    using parseMeals_succeeds[of ins ws] assms(3) by (auto simp: ins_def)
  note rel = parseMeals_Inr[OF pm]
  have len: "length ms = length ins" using rel by (simp add: list_all2_lengthD)
  have nth: "\<And>k. k < length ins \<Longrightarrow> parsedOf ws (ins ! k) (ms ! k)"
    using rel by (simp add: list_all2_nthD)
  have key: "\<And>i j. i < length ins \<Longrightarrow> j < length ins \<Longrightarrow>
      slotKey (ms ! i) = slotKey (ms ! j) \<longleftrightarrow> sameSlot (ins ! i) (ins ! j)"
    using parsedOf_key[OF nth nth] by (simp add: sameSlot_def)
  from assms(4) obtain i0 j0 where ij: "i0 < j0" "j0 < length ins" "sameSlot (ins ! i0) (ins ! j0)"
    by (auto simp: ins_def)
  then have same: "slotKey (ms ! i0) = slotKey (ms ! j0)" using key[of i0 j0] by simp
  have "\<not> distinct (map slotKey ms)"
  proof
    assume "distinct (map slotKey ms)"
    then have "(map slotKey ms ! i0 = map slotKey ms ! j0) = (i0 = j0)"
      using ij len by (intro nth_eq_iff_index_eq) simp_all
    then show False using same ij len by simp
  qed
  then have "\<not> (distinct (map slotKey ms) \<and> set (map slotKey ms) \<inter> {} = {})" by simp
  from duplicateSlot_Some[OF this] obtain pre m post where
    ms: "ms = pre @ m # post" and d: "distinct (map slotKey pre)"
    and k: "slotKey m \<in> set (map slotKey pre)"
    and r: "duplicateSlot {} ms =
             Some (HttpError 400 (''Duplicate slot for date '' @ formatDateOnly (pm_date m)))"
    by auto
  define j where "j = length pre"
  have j: "j < length ins" using ms len by (simp add: j_def)
  have mj: "ms ! j = m" by (simp add: ms j_def)
  have pre: "\<And>i. i < j \<Longrightarrow> ms ! i = pre ! i" by (simp add: ms j_def nth_append)
  from k obtain i where i: "i < j" "slotKey (pre ! i) = slotKey m"
    by (auto simp: in_set_conv_nth j_def)
  have c1: "\<exists>i < j. sameSlot (ins ! i) (ins ! j)"
    using i key[of i j] j pre[of i] mj by auto
  have c2: "\<forall>j' < j. \<forall>i < j'. \<not> sameSlot (ins ! i) (ins ! j')"
  proof (intro allI impI)
    fix j' i assume a: "j' < j" "i < j'"
    then have "slotKey (pre ! i) \<noteq> slotKey (pre ! j')"
      using d by (auto simp: distinct_conv_nth j_def)
    then have "slotKey (ms ! i) \<noteq> slotKey (ms ! j')" using a pre[of i] pre[of j'] by simp
    then show "\<not> sameSlot (ins ! i) (ins ! j')" using key[of i j'] a j by simp
  qed
  have date: "formatDateOnly (pm_date m) = in_date (ins ! j)"
    using parsedOf_date[OF nth[OF j]] mj by simp
  have c3: "putMealPlans db newId (Some userId) body =
             (Inl (HttpError 400 (''Duplicate slot for date '' @ in_date (ins ! j))), db)"
    using assms(1,2) pm r date by (simp add: putMealPlans_def ins_def)
  show ?thesis using j c1 c2 c3 unfolding ins_def by blast
qed


text \<open>
  The theorem at a body of four meals where the third repeats the first and the fourth
  the second: the error names the third's date.
\<close>

theorem duplicate_slot_rejected_witness:
  "putMealPlans planStore ''p2'' (Some ''u1'') repeatedBody =
     (Inl (HttpError 400 ''Duplicate slot for date 2024-01-02''), planStore) \<and>
   sameSlot (body_meals repeatedBody ! 0) (body_meals repeatedBody ! 2) \<and>
   sameSlot (body_meals repeatedBody ! 1) (body_meals repeatedBody ! 3)"
proof -
  have h1: "bodyValid repeatedBody" by code_simp
  have h2: "parseDateOnly (body_weekStart repeatedBody) = Some 1704067200000" by code_simp
  have d1: "parseDateOnly ''2024-01-02'' = Some 1704153600000" by code_simp
  have d2: "parseDateOnly ''2024-01-01'' = Some 1704067200000" by code_simp
  have h3: "\<forall>m \<in> set (body_meals repeatedBody).
      \<exists>d. parseDateOnly (in_date m) = Some d \<and> isWithinWeek d 1704067200000"
    using d1 d2 by (simp add: repeatedBody_def isWithinWeek_def)
  have s02: "sameSlot (body_meals repeatedBody ! 0) (body_meals repeatedBody ! 2)"
    by (simp add: repeatedBody_def sameSlot_def)
  have s13: "sameSlot (body_meals repeatedBody ! 1) (body_meals repeatedBody ! 3)"
    by (simp add: repeatedBody_def sameSlot_def)
  have h4: "\<exists>i j. i < j \<and> j < length (body_meals repeatedBody) \<and>
               sameSlot (body_meals repeatedBody ! i) (body_meals repeatedBody ! j)"
    using s02 by (intro exI[of _ 0] exI[of _ 2]) (simp add: repeatedBody_def)
  from duplicate_slot_rejected[OF h1 h2 h3 h4, of planStore "''p2''" "''u1''"]
  obtain j where j: "j < length (body_meals repeatedBody)"
    and first: "\<forall>j' < j. \<forall>i < j'. \<not> sameSlot (body_meals repeatedBody ! i) (body_meals repeatedBody ! j')"
    and dup: "\<exists>i < j. sameSlot (body_meals repeatedBody ! i) (body_meals repeatedBody ! j)"
    and res: "putMealPlans planStore ''p2'' (Some ''u1'') repeatedBody =
             (Inl (HttpError 400 (''Duplicate slot for date '' @ in_date (body_meals repeatedBody ! j))),
              planStore)"
    by blast
  have "j < 4" using j by (simp add: repeatedBody_def)
  then have "j = 0 \<or> j = 1 \<or> j = 2 \<or> j = 3" by linarith
  moreover have "j \<noteq> 0" using dup by auto
  moreover have "j \<noteq> 1"
  proof
    assume "j = 1"
    then have "sameSlot (body_meals repeatedBody ! 0) (body_meals repeatedBody ! 1)"
      using dup by auto
    then show False by (simp add: repeatedBody_def sameSlot_def)
  qed
  moreover have "j \<noteq> 3"
  proof
    assume "j = 3"
    then have "\<not> sameSlot (body_meals repeatedBody ! 0) (body_meals repeatedBody ! 2)"
      using first by simp
    then show False using s02 by simp
  qed
  ultimately have "j = 2" by blast
  then have "in_date (body_meals repeatedBody ! j) = ''2024-01-02''"
    by (simp add: repeatedBody_def)
  then show ?thesis using res s02 s13 by simp
qed

text \<open>
  Claim C3. In a store whose recipe ids are distinct, the recipe check of
  \<^verbatim>\<open>PUT /meal-plans\<close> works on the distinct recipe ids of the meals, looks up once (and
  not at all for an empty list) the recipes of the requesting user among these ids,
  never finds more rows than ids, and fails with the 400
  \<^verbatim>\<open>One or more recipes were not found for this user\<close>, which names no id, exactly when
  it finds fewer rows than ids, that is, when some meal's recipe does not exist or is not
  the user's. A request that has passed the earlier checks is answered with that error
  exactly in this case. The empty list makes no lookup and passes.
\<close>

theorem recipe_check:
  assumes "distinct (map recipe_id (recipes db))"
  shows
   "distinct (uniqueInOrder [] (map pm_recipeId ms)) \<and>
    set (uniqueInOrder [] (map pm_recipeId ms)) = pm_recipeId ` set ms \<and>
    set (findRecipes db userId ids) =
      {r \<in> set (recipes db). recipe_userId r = userId \<and> recipe_id r \<in> set ids} \<and>
    length (findRecipes db userId (uniqueInOrder [] (map pm_recipeId ms)))
      \<le> length (uniqueInOrder [] (map pm_recipeId ms)) \<and>
    (snd (checkRecipes db userId ms) =
        Some (HttpError 400 ''One or more recipes were not found for this user'') \<longleftrightarrow>
      length (findRecipes db userId (uniqueInOrder [] (map pm_recipeId ms)))
        < length (uniqueInOrder [] (map pm_recipeId ms))) \<and>
    (snd (checkRecipes db userId ms) = None \<longleftrightarrow>
      \<not> length (findRecipes db userId (uniqueInOrder [] (map pm_recipeId ms)))
        < length (uniqueInOrder [] (map pm_recipeId ms))) \<and>
    (snd (checkRecipes db userId ms) = None \<longleftrightarrow>
      (\<forall>m \<in> set ms. ownsRecipe db userId (pm_recipeId m))) \<and>
    fst (checkRecipes db userId ms) = (if ms = [] then 0 else 1) \<and>
    checkRecipes db userId [] = (0, None) \<and>
    (bodyValid body \<and> parseDateOnly (body_weekStart body) = Some ws \<and>
     parseMeals ws (body_meals body) = Inr ms \<and> duplicateSlot {} ms = None \<longrightarrow>
       (fst (putMealPlans db newId (Some userId) body) =
          Inl (HttpError 400 ''One or more recipes were not found for this user'') \<longleftrightarrow>
        length (findRecipes db userId (uniqueInOrder [] (map pm_recipeId ms)))
          < length (uniqueInOrder [] (map pm_recipeId ms))))"
proof -
  define rids where "rids = uniqueInOrder [] (map pm_recipeId ms)"
  define found where "found = findRecipes db userId rids"
  define err where "err = HttpError 400 ''One or more recipes were not found for this user''"
  have d: "distinct rids" by (simp add: rids_def uniqueInOrder_distinct)
  have s: "set rids = pm_recipeId ` set ms" by (simp add: rids_def uniqueInOrder_set)
  have f: "set (findRecipes db userId ids) =
      {r \<in> set (recipes db). recipe_userId r = userId \<and> recipe_id r \<in> set ids}"
    by (auto simp: findRecipes_def)
  have le: "length found \<le> length rids"
    unfolding found_def by (rule findRecipes_length[OF assms d])
  have e: "rids = [] \<longleftrightarrow> ms = []" using s by auto
  have chk: "checkRecipes db userId ms =
      (if ms = [] then (0, None)
       else (1, if length found \<noteq> length rids then Some err else None))"
    using e by (simp add: checkRecipes_def Let_def rids_def[symmetric] found_def[symmetric] err_def)
  have empty: "ms = [] \<Longrightarrow> length found = length rids"
    using e le by simp
  have a: "snd (checkRecipes db userId ms) = Some err \<longleftrightarrow> length found < length rids"
    using chk le empty by auto
  have b: "snd (checkRecipes db userId ms) = None \<longleftrightarrow> \<not> length found < length rids"
    using chk le empty by auto
  have c: "snd (checkRecipes db userId ms) = None \<longleftrightarrow>
      (\<forall>m \<in> set ms. ownsRecipe db userId (pm_recipeId m))"
    by (rule checkRecipes_None[OF assms])
  have n: "fst (checkRecipes db userId ms) = (if ms = [] then 0 else 1)"
    using chk by simp
  have z: "checkRecipes db userId [] = (0, None)" by (simp add: checkRecipes_def)
  have h: "bodyValid body \<and> parseDateOnly (body_weekStart body) = Some ws \<and>
     parseMeals ws (body_meals body) = Inr ms \<and> duplicateSlot {} ms = None \<longrightarrow>
       (fst (putMealPlans db newId (Some userId) body) = Inl err \<longleftrightarrow> length found < length rids)"
  proof
    assume p: "bodyValid body \<and> parseDateOnly (body_weekStart body) = Some ws \<and>
       parseMeals ws (body_meals body) = Inr ms \<and> duplicateSlot {} ms = None"
    show "fst (putMealPlans db newId (Some userId) body) = Inl err \<longleftrightarrow> length found < length rids"
    proof (cases "snd (checkRecipes db userId ms)")
      case None
      have "fst (putMealPlans db newId (Some userId) body) \<noteq> Inl err"
        using p None savePlan_error_code[of db newId userId ws ms]
        by (auto simp: putMealPlans_def err_def split: sum.splits option.splits prod.splits)
      then show ?thesis using None b by simp
    next
      case (Some e')
      then have "e' = err" using chk by (auto split: if_splits)
      then show ?thesis using p Some a by (simp add: putMealPlans_def)
    qed
  qed
  show ?thesis
    using d s f le a b c n z h unfolding rids_def found_def err_def by blast
qed


text \<open>
  The theorem on the example store: the second user owns neither recipe of the body,
  the first owns both.
\<close>

theorem recipe_check_witness:
  "checkRecipes planStore ''u2'' weekMeals =
     (1, Some (HttpError 400 ''One or more recipes were not found for this user'')) \<and>
   uniqueInOrder [] (map pm_recipeId weekMeals) = [''r2'', ''r1''] \<and>
   findRecipes planStore ''u2'' [''r2'', ''r1''] = [] \<and>
   checkRecipes planStore ''u1'' weekMeals = (1, None) \<and>
   length (findRecipes planStore ''u1'' [''r2'', ''r1'']) = 2 \<and>
   fst (putMealPlans planStore ''p2'' (Some ''u2'') weekBody) =
     Inl (HttpError 400 ''One or more recipes were not found for this user'')"
proof -
  have h: "distinct (map recipe_id (recipes planStore))" by (simp add: planStore_def)
  have u: "uniqueInOrder [] (map pm_recipeId weekMeals) = [''r2'', ''r1'']" by code_simp
  have f2: "findRecipes planStore ''u2'' [''r2'', ''r1''] = []" by code_simp
  have f1: "length (findRecipes planStore ''u1'' [''r2'', ''r1'']) = 2" by code_simp
  have n: "weekMeals \<noteq> []" by (simp add: weekMeals_def)
  have b1: "bodyValid weekBody" by code_simp
  have b2: "parseDateOnly (body_weekStart weekBody) = Some 1704067200000" by code_simp
  have b3: "parseMeals 1704067200000 (body_meals weekBody) = Inr weekMeals" by code_simp
  have b4: "duplicateSlot {} weekMeals = None" by code_simp
  note t2 = recipe_check[OF h, of weekMeals "''u2''" "[]" weekBody 1704067200000 "''p2''"]
  note t1 = recipe_check[OF h, of weekMeals "''u1''" "[]" weekBody 1704067200000 "''p2''"]
  have a: "snd (checkRecipes planStore ''u2'' weekMeals) =
      Some (HttpError 400 ''One or more recipes were not found for this user'')"
    using t2 u f2 by simp
  have b: "fst (checkRecipes planStore ''u2'' weekMeals) = 1" using t2 n by simp
  have c: "snd (checkRecipes planStore ''u1'' weekMeals) = None" using t1 u f1 by simp
  have d: "fst (checkRecipes planStore ''u1'' weekMeals) = 1" using t1 n by simp
  have e: "fst (putMealPlans planStore ''p2'' (Some ''u2'') weekBody) =
     Inl (HttpError 400 ''One or more recipes were not found for this user'')"
    using t2 b1 b2 b3 b4 u f2 by simp
  show ?thesis using a b c d e u f2 f1 by (simp add: prod_eq_iff)
qed



text \<open>
  Claim C10. A successful \<^verbatim>\<open>PUT /meal-plans\<close> returns the id of the plan row of
  (user, week), also for an empty meals list; the \<^verbatim>\<open>GET /meal-plans\<close> that follows
  returns that id with the same meals (none for an empty list), and every later
  \<^verbatim>\<open>GET\<close> that succeeds returns that id, whatever \<^verbatim>\<open>PUT\<close> requests were served in
  between. A
  \<^verbatim>\<open>GET\<close> returns a null id only when the store has no plan row for (user, week), the
  meals then being empty, and it does return a null id for such a pair.
\<close>

theorem put_creates_plan_row:
  assumes "putMealPlans db newId user body = (Inr resp, db')"
  shows "(\<exists>pid. resp_id resp = Some pid \<and>
            getMealPlans db' user (body_weekStart body) =
              Inr \<lparr>resp_id = Some pid, resp_weekStart = body_weekStart body,
                   resp_meals = resp_meals resp\<rparr> \<and>
            (body_meals body = [] \<longrightarrow> resp_meals resp = [])) \<and>
         (getMealPlans (putRun db' reqs) user (body_weekStart body) = Inr r \<longrightarrow>
            resp_id r = resp_id resp) \<and>
         (getMealPlans d u w = Inr r' \<and> resp_id r' = None \<longrightarrow>
            (\<exists>userId ws. u = Some userId \<and> parseDateOnly w = Some ws \<and>
               planOf d userId ws = None \<and> resp_meals r' = [])) \<and>
         (parseDateOnly w = Some ws' \<and> planOf d userId' ws' = None \<longrightarrow>
            getMealPlans d (Some userId') w =
              Inr \<lparr>resp_id = None, resp_weekStart = w, resp_meals = []\<rparr>)"
proof -
  from putMealPlans_Inr[OF assms] obtain userId ws ms p rows where
    u: "user = Some userId" and w: "parseDateOnly (body_weekStart body) = Some ws"
    and sp: "savePlan db newId userId ws ms = Inr (p, rows, db')"
    and id: "resp_id resp = Some (plan_id p)"
    by blast
  from savePlan_Inr[OF sp] obtain q where q: "planOf db' userId ws = Some q"
    and qp: "plan_id q = plan_id p"
    by blast
  from put_stored[OF assms] have e: "body_meals body = [] \<longrightarrow> resp_meals resp = []"
    by auto
  have a: "\<exists>pid. resp_id resp = Some pid \<and>
            getMealPlans db' user (body_weekStart body) =
              Inr \<lparr>resp_id = Some pid, resp_weekStart = body_weekStart body,
                   resp_meals = resp_meals resp\<rparr> \<and>
            (body_meals body = [] \<longrightarrow> resp_meals resp = [])"
    using get_after_put[OF assms] id e by simp
  have b: "getMealPlans (putRun db' reqs) user (body_weekStart body) = Inr r \<longrightarrow>
            resp_id r = resp_id resp"
  proof
    assume g: "getMealPlans (putRun db' reqs) user (body_weekStart body) = Inr r"
    from getMealPlans_Inr[OF g] u w
    have "resp_id r = map_option plan_id (planOf (putRun db' reqs) userId ws)" by auto
    then show "resp_id r = resp_id resp"
      using putRun_keeps_plan[OF q, of reqs] qp id by simp
  qed
  have c: "getMealPlans d u w = Inr r' \<and> resp_id r' = None \<longrightarrow>
            (\<exists>userId ws. u = Some userId \<and> parseDateOnly w = Some ws \<and>
               planOf d userId ws = None \<and> resp_meals r' = [])"
  proof
    assume g: "getMealPlans d u w = Inr r' \<and> resp_id r' = None"
    from getMealPlans_Inr[of d u w r'] g obtain userId ws where
      x: "u = Some userId" "parseDateOnly w = Some ws"
      "resp_id r' = map_option plan_id (planOf d userId ws)"
      "sortedMealViews d (case planOf d userId ws of None \<Rightarrow> []
                                | Some p \<Rightarrow> planMeals d (plan_id p)) = Some (resp_meals r')"
      by blast
    then have n: "planOf d userId ws = None" using g by simp
    then have "resp_meals r' = []" using x(4) by (simp add: sortedMealViews_def)
    then show "\<exists>userId ws. u = Some userId \<and> parseDateOnly w = Some ws \<and>
               planOf d userId ws = None \<and> resp_meals r' = []"
      using x n by blast
  qed
  have dd: "parseDateOnly w = Some ws' \<and> planOf d userId' ws' = None \<longrightarrow>
            getMealPlans d (Some userId') w =
              Inr \<lparr>resp_id = None, resp_weekStart = w, resp_meals = []\<rparr>"
    by (simp add: getMealPlans_def planOf_def Let_def sortedMealViews_def)
  show ?thesis using a b c dd by blast
qed


text \<open>
  The theorem on the example store: the week of 8 January 2024 has no plan, an empty
  save creates the row, and the row outlives two further saves.
\<close>

theorem put_creates_plan_row_witness:
  "getMealPlans planStore (Some ''u1'') ''2024-01-08'' =
     Inr \<lparr>resp_id = None, resp_weekStart = ''2024-01-08'', resp_meals = []\<rparr> \<and>
   putMealPlans planStore ''p2'' (Some ''u1'') clearBody =
     (Inr \<lparr>resp_id = Some ''p2'', resp_weekStart = ''2024-01-08'', resp_meals = []\<rparr>,
      clearedStore) \<and>
   getMealPlans clearedStore (Some ''u1'') ''2024-01-08'' =
     Inr \<lparr>resp_id = Some ''p2'', resp_weekStart = ''2024-01-08'', resp_meals = []\<rparr> \<and>
   getMealPlans (putRun clearedStore [(''p3'', Some ''u1'', weekBody), (''p4'', Some ''u2'', clearBody)])
       (Some ''u1'') ''2024-01-08'' =
     Inr \<lparr>resp_id = Some ''p2'', resp_weekStart = ''2024-01-08'', resp_meals = []\<rparr>"
proof -
  define resp where "resp = \<lparr>resp_id = Some ''p2'', resp_weekStart = ''2024-01-08'',
      resp_meals = ([] :: MealView list)\<rparr>"
  define reqs where "reqs = [(''p3'', Some ''u1'', weekBody), (''p4'', Some ''u2'', clearBody)]"
  have p: "putMealPlans planStore ''p2'' (Some ''u1'') clearBody = (Inr resp, clearedStore)"
    unfolding resp_def by code_simp
  have w: "parseDateOnly ''2024-01-08'' = Some 1704672000000" by code_simp
  have n: "planOf planStore ''u1'' 1704672000000 = None" by code_simp
  have after: "getMealPlans (putRun clearedStore reqs) (Some ''u1'') ''2024-01-08'' = Inr resp"
    unfolding resp_def reqs_def by code_simp
  note t = put_creates_plan_row[where reqs = reqs and r = resp and d = planStore
      and u = "Some ''u1''" and w = "''2024-01-08''" and r' = resp and ws' = 1704672000000
      and userId' = "''u1''", OF p]
  have b: "body_weekStart clearBody = ''2024-01-08''" by (simp add: clearBody_def)
  have g0: "getMealPlans planStore (Some ''u1'') ''2024-01-08'' =
     Inr \<lparr>resp_id = None, resp_weekStart = ''2024-01-08'', resp_meals = []\<rparr>"
    using t w n by blast
  have g1: "getMealPlans clearedStore (Some ''u1'') ''2024-01-08'' = Inr resp"
    using t b by (auto simp: resp_def)
  have "resp_id resp = Some ''p2''" by (simp add: resp_def)
  then show ?thesis using p g0 g1 after unfolding resp_def reqs_def by simp
qed


end
